theory Spec2Isabelle
  imports Complex_Main "HOL-Library.Sublist"
begin

section \<open>Numbers, vectors and matrices\<close>

text \<open>
  The renderer computes with JavaScript numbers. The model computes with the reals
  (exact arithmetic): rounding to float32 on a store into a Float32Array is left out,
  and where the source divides by zero (IEEE gives an infinity or NaN) the model has
  HOL's \<open>x / 0 = 0\<close>. Values that the source obtains from \<open>Math.ceil\<close> and
  \<open>Math.floor\<close> are integers and are typed \<open>int\<close>.
\<close>

text \<open>
  Vector4 is not among the sources; the renderer reads and writes its four components
  as \<open>data[0]\<close> .. \<open>data[3]\<close> and as \<open>x\<close>, \<open>y\<close>, \<open>z\<close>, \<open>w\<close>, which name the
  same four cells.
\<close>

datatype Vector4 = Vector4 (data0: real) (data1: real) (data2: real) (data3: real)

text \<open>
  Modelled from the spec: Matrix4x4 is not among the sources. A matrix is its four rows,
  \<open>applyPost\<close> is the product of the matrix with a column vector (spec 4.2,
  \<open>v' = P . v\<close>) and \<open>combine\<close> is the matrix product (spec 3, \<open>VP = P . V\<close>).
\<close>

datatype Matrix4x4 = Matrix4x4 (row0: Vector4) (row1: Vector4) (row2: Vector4) (row3: Vector4)

definition dot4 :: "Vector4 \<Rightarrow> Vector4 \<Rightarrow> real" where
  "dot4 a b = data0 a * data0 b + data1 a * data1 b + data2 a * data2 b + data3 a * data3 b"

definition applyPost :: "Matrix4x4 \<Rightarrow> Vector4 \<Rightarrow> Vector4" where
  "applyPost m v = Vector4 (dot4 (row0 m) v) (dot4 (row1 m) v) (dot4 (row2 m) v) (dot4 (row3 m) v)"

definition column :: "(Vector4 \<Rightarrow> real) \<Rightarrow> Matrix4x4 \<Rightarrow> Vector4" where
  "column sel m = Vector4 (sel (row0 m)) (sel (row1 m)) (sel (row2 m)) (sel (row3 m))"

definition combine :: "Matrix4x4 \<Rightarrow> Matrix4x4 \<Rightarrow> Matrix4x4" where
  "combine lhs rhs =
     (let times = (\<lambda>r. Vector4 (dot4 r (column data0 rhs)) (dot4 r (column data1 rhs))
                              (dot4 r (column data2 rhs)) (dot4 r (column data3 rhs)))
      in Matrix4x4 (times (row0 lhs)) (times (row1 lhs)) (times (row2 lhs)) (times (row3 lhs)))"

text \<open>Triangle is not among the sources: the renderer builds it from three vertices and
  reads them back as \<open>v1\<close>, \<open>v2\<close>, \<open>v3\<close>.\<close>

datatype Triangle = Triangle (triV1: Vector4) (triV2: Vector4) (triV3: Vector4)

definition triangleVertices :: "Triangle \<Rightarrow> Vector4 list" where
  "triangleVertices t = [triV1 t, triV2 t, triV3 t]"

section \<open>Back-face test and near-plane clipping\<close>

text \<open>\<open>_isBackFacingCameraViewSpace\<close> (lines 402-436), with its arrays \<open>e1\<close>, \<open>e2\<close>
  and \<open>faceNormal\<close>.\<close>

definition isBackFacingCameraViewSpace :: "Vector4 \<Rightarrow> Vector4 \<Rightarrow> Vector4 \<Rightarrow> bool" where
  "isBackFacingCameraViewSpace v1 v2 v3 =
     (let e1 = [data0 v2 - data0 v1, data1 v2 - data1 v1, data2 v2 - data2 v1];
          e2 = [data0 v3 - data0 v1, data1 v3 - data1 v1, data2 v3 - data2 v1];
          faceNormal = [e2 ! 2 * e1 ! 1 - e2 ! 1 * e1 ! 2,
                        e2 ! 0 * e1 ! 2 - e2 ! 2 * e1 ! 0,
                        e2 ! 1 * e1 ! 0 - e2 ! 0 * e1 ! 1];
          dot = faceNormal ! 0 * data0 v1 + faceNormal ! 1 * data1 v1 + faceNormal ! 2 * data2 v1
      in dot > 0)"

text \<open>
  The vector operations the specification words its back-face rule with: difference,
  cross product (right-handed, \<open>a \<times> b = (a\<^sub>y b\<^sub>z - a\<^sub>z b\<^sub>y, a\<^sub>z b\<^sub>x - a\<^sub>x b\<^sub>z, a\<^sub>x b\<^sub>y - a\<^sub>y b\<^sub>x)\<close>)
  and dot product of the spatial parts of two vertices.
\<close>

type_synonym vec3 = "real \<times> real \<times> real"

definition xyz :: "Vector4 \<Rightarrow> vec3" where
  "xyz v = (data0 v, data1 v, data2 v)"

fun sub3 :: "vec3 \<Rightarrow> vec3 \<Rightarrow> vec3" where
  "sub3 (ax, ay, az) (bx, by, bz) = (ax - bx, ay - by, az - bz)"

fun cross3 :: "vec3 \<Rightarrow> vec3 \<Rightarrow> vec3" where
  "cross3 (ax, ay, az) (bx, by, bz) = (ay * bz - az * by, az * bx - ax * bz, ax * by - ay * bx)"

fun dot3 :: "vec3 \<Rightarrow> vec3 \<Rightarrow> real" where
  "dot3 (ax, ay, az) (bx, by, bz) = ax * bx + ay * by + az * bz"

text \<open>\<open>_categorizeVertices\<close> (lines 326-336): the pair (outsideIndices, insideIndices)
  after the loop over the three vertices.\<close>

definition categorizeVertices :: "Vector4 list \<Rightarrow> real \<Rightarrow> nat list \<times> nat list" where
  "categorizeVertices vertices cameraNear =
     foldl (\<lambda>(outsideIndices, insideIndices) i.
              if data2 (vertices ! i) \<le> cameraNear
              then (outsideIndices, insideIndices @ [i])
              else (outsideIndices @ [i], insideIndices))
           ([], []) [0 ..< 3]"

text \<open>\<open>_calculateIntersectionRatio\<close> (lines 351-367).\<close>

definition calculateIntersectionRatio :: "Vector4 \<Rightarrow> Vector4 \<Rightarrow> real \<Rightarrow> real" where
  "calculateIntersectionRatio origin target near =
     (data2 origin + near) / (data2 origin - data2 target)"

text \<open>
  The \<open>switch (outsideIndices.length)\<close> of \<open>_createTrianglesForEntity\<close> (lines 189-253):
  \<open>None\<close> is the \<open>continue\<close> of case 3, otherwise the vertex array after the case. In
  case 1 both new points are computed from the origin before the origin is overwritten,
  and the fourth vertex is pushed; in case 2 the two outside vertices are moved in place.
\<close>

definition clipToNearPlane :: "real \<Rightarrow> Vector4 list \<Rightarrow> nat list \<Rightarrow> nat list \<Rightarrow> Vector4 list option" where
  "clipToNearPlane near vertices outsideIndices insideIndices =
     (if length outsideIndices = 0 then Some vertices
      else if length outsideIndices = 3 then None
      else if length outsideIndices = 1 then
        (let origin = vertices ! (outsideIndices ! 0);
             target = vertices ! (insideIndices ! 0);
             ratio = calculateIntersectionRatio origin target near;
             newV1 = [data0 origin + ratio * (data0 target - data0 origin),
                      data1 origin + ratio * (data1 target - data1 origin),
                      data2 origin + ratio * (data2 target - data2 origin)];
             target' = vertices ! (insideIndices ! 1);
             ratio' = calculateIntersectionRatio origin target' near;
             newV2 = Vector4 (data0 origin + ratio' * (data0 target' - data0 origin))
                             (data1 origin + ratio' * (data1 target' - data1 origin))
                             (data2 origin + ratio' * (data2 target' - data2 origin))
                             1
         in Some (vertices[outsideIndices ! 0 :=
                     Vector4 (newV1 ! 0) (newV1 ! 1) (newV1 ! 2) (data3 origin)] @ [newV2]))
      else if length outsideIndices = 2 then
        (let origin = vertices ! (outsideIndices ! 0);
             target = vertices ! (insideIndices ! 0);
             ratio = calculateIntersectionRatio origin target near;
             vertices1 = vertices[outsideIndices ! 0 :=
                           Vector4 (data0 origin + ratio * (data0 target - data0 origin))
                                   (data1 origin + ratio * (data1 target - data1 origin))
                                   (data2 origin + ratio * (data2 target - data2 origin))
                                   (data3 origin)];
             origin' = vertices1 ! (outsideIndices ! 1);
             ratio' = calculateIntersectionRatio origin' target near
         in Some (vertices1[outsideIndices ! 1 :=
                     Vector4 (data0 origin' + ratio' * (data0 target - data0 origin'))
                             (data1 origin' + ratio' * (data1 target - data1 origin'))
                             (data2 origin' + ratio' * (data2 target - data2 origin'))
                             (data3 origin')]))
      else Some vertices)"

text \<open>\<open>_createTriangles\<close> (lines 301-315): the triangles it pushes.\<close>

definition createTriangles :: "Vector4 list \<Rightarrow> nat list \<Rightarrow> nat list \<Rightarrow> Triangle list" where
  "createTriangles vertices outsideIndices insideIndices =
     (if length vertices = 4 then
        [Triangle (vertices ! (outsideIndices ! 0)) (vertices ! (insideIndices ! 0)) (vertices ! 3),
         Triangle (vertices ! 3) (vertices ! (insideIndices ! 0)) (vertices ! (insideIndices ! 1))]
      else [Triangle (vertices ! 0) (vertices ! 1) (vertices ! 2)])"

text \<open>
  The clipper on one camera-space triangle: back-face test, categorisation and the switch,
  with the triangles that \<open>_createTriangles\<close> forms from the clipped vertex array. The
  source projects the vertices in between (see \<open>createTrianglesForVertices\<close> below);
  this is the same selection of vertices before projection.
\<close>

definition clipTriangle :: "real \<Rightarrow> Vector4 \<Rightarrow> Vector4 \<Rightarrow> Vector4 \<Rightarrow> Triangle list" where
  "clipTriangle near v1 v2 v3 =
     (if isBackFacingCameraViewSpace v1 v2 v3 then []
      else
        (let vertices = [v1, v2, v3];
             (outsideIndices, insideIndices) = categorizeVertices vertices (- near)
         in case clipToNearPlane near vertices outsideIndices insideIndices of
              None \<Rightarrow> []
            | Some vertices' \<Rightarrow> createTriangles vertices' outsideIndices insideIndices))"

text \<open>The intersection point in the specification's words (4.1): the ratio from the
  outside origin to the inside target, and the point on the segment at that ratio.\<close>

definition specRatio :: "real \<Rightarrow> Vector4 \<Rightarrow> Vector4 \<Rightarrow> real" where
  "specRatio n origin target = (data2 origin + n) / (data2 origin - data2 target)"

definition specIntersection :: "real \<Rightarrow> Vector4 \<Rightarrow> Vector4 \<Rightarrow> vec3" where
  "specIntersection n origin target =
     (let r = specRatio n origin target
      in (data0 origin + r * (data0 target - data0 origin),
          data1 origin + r * (data1 target - data1 origin),
          data2 origin + r * (data2 target - data2 origin)))"

section \<open>The renderer and its buffers\<close>

text \<open>Camera is not among the sources; the renderer reads \<open>near\<close>, \<open>getViewMatrix()\<close>
  and \<open>getProjectionMatrix()\<close>.\<close>

record Camera =
  near :: real
  viewMatrix :: Matrix4x4
  projectionMatrix :: Matrix4x4

text \<open>
  What the renderer reads of an entity: \<open>meshRendererComponent.cullMode\<close>,
  \<open>meshDataComponent.modelBound\<close> (tested with \<open>instanceof\<close> against the two bound
  classes; \<open>OtherBound\<close> is any other value), the occluder's \<open>POSITION\<close> view and
  index data, and \<open>transformComponent.worldTransform.matrix\<close>.
\<close>

datatype ModelBound = BoundingSphere vec3 real | BoundingBox vec3 vec3 | OtherBound

record Entity =
  cullMode :: string
  modelBound :: ModelBound
  positions :: "real list"
  indexData :: "nat list"
  worldTransform :: Matrix4x4

text \<open>
  What stops an operation early. \<open>RangeError\<close> and \<open>TypeError\<close> are the exceptions of
  the JavaScript runtime (a buffer that cannot be allocated, a \<open>set\<close> past the end of a
  typed array, a property read on \<open>undefined\<close>). \<open>ModuleError\<close> stands for whatever the
  constructor of an occlusion module, which is not among the sources, may raise.
  \<open>UndefinedVertex\<close> is not an exception:
  where an index buffer names a position that does not exist the source goes on with
  \<open>undefined\<close> coordinates, whose fate lies in the absent Vector4 class and in NaN
  arithmetic; the model stops there instead.
\<close>

datatype failure = RangeError | TypeError | ModuleError | UndefinedVertex

text \<open>
  The renderer object. \<open>width\<close> .. \<open>depthClear\<close> are the fields of the source
  (\<open>_clipY\<close>, \<open>_clipX\<close>, \<open>_colorData\<close>, \<open>_depthData\<close>, \<open>_depthClear\<close>).
  \<open>console\<close> is the output of \<open>console.error\<close> (label and value, oldest first), and
  \<open>accessed\<close> records the indices at which \<open>_depthData\<close> has been read, oldest first
  (every write to \<open>_depthData\<close> follows a read of the same index).
\<close>

record SoftwareRenderer =
  width :: int
  height :: int
  clipY :: int
  clipX :: int
  camera :: "Camera option"
  colorData :: "nat list"
  depthData :: "real list"
  depthClear :: "real list"
  console :: "(string \<times> real) list"
  accessed :: "int list"

text \<open>The loop of the constructor that initialises the clear buffer (lines 53-55).\<close>

function initDepthClear :: "int \<Rightarrow> int \<Rightarrow> real list \<Rightarrow> real list" where
  "initDepthClear i numOfPixels buf =
     (if i < numOfPixels then initDepthClear (i + 1) numOfPixels (buf[nat i := 0]) else buf)"
  by pat_completeness auto
termination
  by (relation "measure (\<lambda>(i, numOfPixels, buf). nat (numOfPixels - i))") auto

declare initDepthClear.simps [simp del]

text \<open>
  What the constructor depends on outside this file. \<open>canAllocate n\<close> tells whether the
  JavaScript runtime is able to allocate an ArrayBuffer of \<open>n\<close> bytes; the limit is the
  runtime's own. The constructors of the two occlusion modules (lines 57-58) are not among
  the sources: each is given the renderer and either returns (\<open>None\<close>) or raises.
\<close>

record Runtime =
  canAllocate :: "int \<Rightarrow> bool"
  newBoundingBoxOcclusionModule :: "SoftwareRenderer \<Rightarrow> failure option"
  newBoundingSphereOcclusionModule :: "SoftwareRenderer \<Rightarrow> failure option"

text \<open>
  The constructor (lines 25-59), for integer \<open>width\<close> and \<open>height\<close> and a camera that
  may be missing. It checks nothing. \<open>new ArrayBuffer(n)\<close> raises RangeError for
  negative \<open>n\<close>, for \<open>n\<close> above \<open>2^53 - 1\<close> and whenever the runtime cannot allocate
  \<open>n\<close> bytes, and is zero-filled otherwise; the three views have \<open>4 * numOfPixels\<close>,
  \<open>numOfPixels\<close> and \<open>numOfPixels\<close> cells. The two module constructors run last, the
  bounding-box one first, and what they raise leaves the constructor.
\<close>

definition newSoftwareRenderer ::
  "Runtime \<Rightarrow> int \<Rightarrow> int \<Rightarrow> Camera option \<Rightarrow> failure + SoftwareRenderer" where
  "newSoftwareRenderer rt w h cam =
     (let numOfPixels = w * h;
          colorBytes = numOfPixels * 4 * 1;
          depthBytes = numOfPixels * 4;
          byteLength = colorBytes + depthBytes * 2
      in if byteLength < 0 \<or> 2 ^ 53 - 1 < byteLength \<or> \<not> canAllocate rt byteLength
         then Inl RangeError
         else let renderer = \<lparr> width = w, height = h, clipY = h - 1, clipX = w - 1, camera = cam,
                    colorData = replicate (nat (numOfPixels * 4)) 0,
                    depthData = replicate (nat numOfPixels) 0,
                    depthClear = initDepthClear 0 numOfPixels (replicate (nat numOfPixels) 0),
                    console = [], accessed = [] \<rparr>
              in case newBoundingBoxOcclusionModule rt renderer of
                   Some e \<Rightarrow> Inl e
                 | None \<Rightarrow>
                     (case newBoundingSphereOcclusionModule rt renderer of
                        Some e \<Rightarrow> Inl e
                      | None \<Rightarrow> Inr renderer))"

text \<open>\<open>_clearDepthData\<close> (lines 64-67): \<open>set\<close> copies the clear buffer, which has as
  many cells as the depth buffer, over the depth buffer.\<close>

definition clearDepthData :: "SoftwareRenderer \<Rightarrow> SoftwareRenderer" where
  "clearDepthData r = r\<lparr>depthData := depthClear r\<rparr>"

section \<open>From an entity to screen-space triangles\<close>

text \<open>\<open>_projectionTransform\<close> (lines 279-290): \<open>x\<close> and \<open>y\<close> are divided by \<open>w\<close>,
  \<open>z\<close> and \<open>w\<close> are kept.\<close>

definition projectionTransform :: "Vector4 list \<Rightarrow> Matrix4x4 \<Rightarrow> Vector4 list" where
  "projectionTransform vertices matrix =
     map (\<lambda>v. let v' = applyPost matrix v; dv = 1 / data3 v'
               in Vector4 (data0 v' * dv) (data1 v' * dv) (data2 v') (data3 v')) vertices"

text \<open>\<open>_transformToScreenSpace\<close> (lines 374-392).\<close>

definition transformToScreenSpace :: "SoftwareRenderer \<Rightarrow> Vector4 list \<Rightarrow> Vector4 list" where
  "transformToScreenSpace r vertices =
     map (\<lambda>vertex. Vector4 ((data0 vertex + 1) * (real_of_int (clipX r) / 2))
                            ((data1 vertex + 1) * (real_of_int (clipY r) / 2))
                            (data2 vertex) (data3 vertex)) vertices"

text \<open>The body of the index loop of \<open>_createTrianglesForEntity\<close> for the three vertices
  of one triangle (lines 173-267): the triangles it pushes.\<close>

definition createTrianglesForVertices ::
  "SoftwareRenderer \<Rightarrow> Camera \<Rightarrow> Matrix4x4 \<Rightarrow> Vector4 \<Rightarrow> Vector4 \<Rightarrow> Vector4 \<Rightarrow> Triangle list" where
  "createTrianglesForVertices r cam cameraProjectionMatrix v1 v2 v3 =
     (if isBackFacingCameraViewSpace v1 v2 v3 then []
      else
        (let vertices = [v1, v2, v3];
             cameraNearZInWorld = - near cam;
             (outsideIndices, insideIndices) = categorizeVertices vertices cameraNearZInWorld
         in case clipToNearPlane (near cam) vertices outsideIndices insideIndices of
              None \<Rightarrow> []
            | Some vertices' \<Rightarrow>
                createTriangles
                  (transformToScreenSpace r (projectionTransform vertices' cameraProjectionMatrix))
                  outsideIndices insideIndices))"

text \<open>
  The first loop of \<open>_createTrianglesForEntity\<close> (lines 155-160): three positions at a
  time are transformed and written to \<open>posArray\<close>. When the number of positions is not
  a multiple of three, the last \<open>posArray.set\<close> of three values runs past the end of the
  array and raises RangeError.
\<close>

fun transformPositions :: "Matrix4x4 \<Rightarrow> real list \<Rightarrow> failure + real list" where
  "transformPositions combinedMatrix (px # py # pz # rest) =
     (let tempVertex = applyPost combinedMatrix (Vector4 px py pz 1)
      in case transformPositions combinedMatrix rest of
           Inl e \<Rightarrow> Inl e
         | Inr posArray \<Rightarrow> Inr (data0 tempVertex # data1 tempVertex # data2 tempVertex # posArray))"
| "transformPositions combinedMatrix [] = Inr []"
| "transformPositions combinedMatrix rest = Inl RangeError"

text \<open>The vertex that lines 164-171 build from \<open>posArray\<close> for one index; \<open>None\<close> when
  a read is past the end of the array.\<close>

definition vertexAt :: "real list \<Rightarrow> nat \<Rightarrow> Vector4 option" where
  "vertexAt posArray vertIndex =
     (let posIndex = vertIndex * 3
      in if posIndex + 2 < length posArray
         then Some (Vector4 (posArray ! posIndex) (posArray ! (posIndex + 1)) (posArray ! (posIndex + 2)) 1)
         else None)"

text \<open>The index loop (lines 162-268), three indices at a time.\<close>

fun trianglesForIndices ::
  "SoftwareRenderer \<Rightarrow> Camera \<Rightarrow> Matrix4x4 \<Rightarrow> real list \<Rightarrow> nat list \<Rightarrow> failure + Triangle list" where
  "trianglesForIndices r cam cameraProjectionMatrix posArray (i1 # i2 # i3 # rest) =
     (case (vertexAt posArray i1, vertexAt posArray i2, vertexAt posArray i3) of
        (Some v1, Some v2, Some v3) \<Rightarrow>
          (case trianglesForIndices r cam cameraProjectionMatrix posArray rest of
             Inl e \<Rightarrow> Inl e
           | Inr triangles \<Rightarrow>
               Inr (createTrianglesForVertices r cam cameraProjectionMatrix v1 v2 v3 @ triangles))
      | _ \<Rightarrow> Inl UndefinedVertex)"
| "trianglesForIndices r cam cameraProjectionMatrix posArray [] = Inr []"
| "trianglesForIndices r cam cameraProjectionMatrix posArray rest = Inl UndefinedVertex"

text \<open>\<open>_createTrianglesForEntity\<close> (lines 135-271).\<close>

definition createTrianglesForEntity ::
  "SoftwareRenderer \<Rightarrow> Entity \<Rightarrow> Matrix4x4 \<Rightarrow> Matrix4x4 \<Rightarrow> failure + Triangle list" where
  "createTrianglesForEntity r entity cameraViewMatrix cameraProjectionMatrix =
     (case camera r of
        None \<Rightarrow> Inl TypeError
      | Some cam \<Rightarrow>
          (let combinedMatrix = combine cameraViewMatrix (worldTransform entity)
           in case transformPositions combinedMatrix (positions entity) of
                Inl e \<Rightarrow> Inl e
              | Inr posArray \<Rightarrow>
                  trianglesForIndices r cam cameraProjectionMatrix posArray (indexData entity)))"

section \<open>Edges and per-scanline edge data\<close>

text \<open>
  Modelled from the spec: Edge is not among the sources. Spec 3 (Edge) and 4.3: the
  endpoints \<open>(x0, y0, z0)\<close>, \<open>(x1, y1, z1)\<close> of the edge between two vertices are
  ordered so that \<open>y0 \<le> y1\<close> (swapped if needed, \<open>z\<close> with them); \<open>z\<close> is the vertex's
  \<open>w\<close> until \<open>invertZ\<close> replaces it by \<open>1 / w\<close>; \<open>roundOccluderCoordinates\<close> sets
  \<open>x0 = ceil\<close>, \<open>x1 = floor\<close>, \<open>y0 = ceil\<close>, \<open>y1 = floor\<close>, and
  \<open>roundOccludeeCoordinates\<close> sets \<open>x0 = floor\<close>, \<open>x1 = ceil\<close>, \<open>y0 = floor\<close>,
  \<open>y1 = ceil\<close>. The coordinates are real before the rounding and integers after it.
\<close>

record 'c Edge =
  x0 :: 'c
  y0 :: 'c
  z0 :: real
  x1 :: 'c
  y1 :: 'c
  z1 :: real

definition newEdge :: "Vector4 \<Rightarrow> Vector4 \<Rightarrow> real Edge" where
  "newEdge a b =
     (if data1 a \<le> data1 b
      then \<lparr> x0 = data0 a, y0 = data1 a, z0 = data3 a, x1 = data0 b, y1 = data1 b, z1 = data3 b \<rparr>
      else \<lparr> x0 = data0 b, y0 = data1 b, z0 = data3 b, x1 = data0 a, y1 = data1 a, z1 = data3 a \<rparr>)"

definition roundOccluderCoordinates :: "real Edge \<Rightarrow> int Edge" where
  "roundOccluderCoordinates e =
     \<lparr> x0 = \<lceil>x0 e\<rceil>, y0 = \<lceil>y0 e\<rceil>, z0 = z0 e, x1 = \<lfloor>x1 e\<rfloor>, y1 = \<lfloor>y1 e\<rfloor>, z1 = z1 e \<rparr>"

definition roundOccludeeCoordinates :: "real Edge \<Rightarrow> int Edge" where
  "roundOccludeeCoordinates e =
     \<lparr> x0 = \<lfloor>x0 e\<rfloor>, y0 = \<lfloor>y0 e\<rfloor>, z0 = z0 e, x1 = \<lceil>x1 e\<rceil>, y1 = \<lceil>y1 e\<rceil>, z1 = z1 e \<rparr>"

definition invertZ :: "int Edge \<Rightarrow> int Edge" where
  "invertZ e = e\<lparr> z0 := 1 / z0 e, z1 := 1 / z1 e \<rparr>"

text \<open>
  Modelled from the spec: EdgeData is not among the sources. Spec 3 (EdgeData): the
  fields, in the order in which \<open>_edgePreRenderProcess\<close> passes them to the constructor;
  the getters of the source read them. \<open>updateXValues\<close> advances the four interpolants
  by their per-scanline increments (spec 4.5, step 7).
\<close>

record EdgeData =
  startLine :: int
  stopLine :: int
  longX :: real
  shortX :: real
  longZ :: real
  shortZ :: real
  longXIncrement :: real
  shortXIncrement :: real
  longZIncrement :: real
  shortZIncrement :: real

definition updateXValues :: "EdgeData \<Rightarrow> EdgeData" where
  "updateXValues edgeData =
     edgeData\<lparr> longX := longX edgeData + longXIncrement edgeData,
               shortX := shortX edgeData + shortXIncrement edgeData,
               longZ := longZ edgeData + longZIncrement edgeData,
               shortZ := shortZ edgeData + shortZIncrement edgeData \<rparr>"

text \<open>\<open>_updateEdgeDataToNextLine\<close> (lines 1002-1004).\<close>

definition updateEdgeDataToNextLine :: "EdgeData \<Rightarrow> EdgeData" where
  "updateEdgeDataToNextLine edgeData = updateXValues edgeData"

text \<open>\<open>_createEdgesForTriangle\<close> (lines 474-498): the three edges it stores in
  \<open>_edges\<close> and the index array it returns.\<close>

definition createEdgesForTriangle :: "Triangle \<Rightarrow> real Edge list \<times> nat list" where
  "createEdgesForTriangle triangle =
     (let edges = [newEdge (triV1 triangle) (triV2 triangle),
                   newEdge (triV2 triangle) (triV3 triangle),
                   newEdge (triV3 triangle) (triV1 triangle)];
          (maxHeight, longEdge) =
             foldl (\<lambda>(maxHeight, longEdge) i.
                      let height = y1 (edges ! i) - y0 (edges ! i)
                      in if height > maxHeight then (height, i) else (maxHeight, longEdge))
                   (0, 0) [0 ..< 3];
          shortEdge1 = (longEdge + 1) mod 3;
          shortEdge2 = (longEdge + 2) mod 3
      in (edges, [longEdge, shortEdge1, shortEdge2]))"

text \<open>\<open>_calculateOrientationData\<close> (lines 508-527): (long edge is on the right,
  triangle leans inwards).\<close>

definition calculateOrientationData :: "EdgeData \<Rightarrow> int Edge \<Rightarrow> int Edge \<Rightarrow> bool \<times> bool" where
  "calculateOrientationData edgeData shortEdge longEdge =
     (if shortX edgeData = longX edgeData
      then (longXIncrement edgeData > shortXIncrement edgeData, z1 longEdge < z1 shortEdge)
      else (longX edgeData > shortX edgeData, z1 longEdge < z0 shortEdge))"

text \<open>\<open>_verticalLongEdgeCull\<close> (lines 662-664), called before the edges are rounded.\<close>

definition verticalLongEdgeCull :: "SoftwareRenderer \<Rightarrow> real Edge \<Rightarrow> bool" where
  "verticalLongEdgeCull r longEdge \<longleftrightarrow> y1 longEdge < 0 \<or> y0 longEdge > real_of_int (clipY r)"

text \<open>\<open>_horizontalLongEdgeCull\<close> (lines 671-677).\<close>

definition horizontalLongEdgeCull :: "SoftwareRenderer \<Rightarrow> int Edge \<Rightarrow> bool \<times> bool \<Rightarrow> bool" where
  "horizontalLongEdgeCull r longEdge orientationData =
     (if fst orientationData then x1 longEdge < 0 \<and> x0 longEdge < 0
      else x1 longEdge > clipX r \<and> x0 longEdge > clipX r)"

text \<open>\<open>_edgePreRenderProcess\<close> (lines 1010-1077); \<open>None\<close> is its early \<open>return\<close>.\<close>

definition edgePreRenderProcess :: "SoftwareRenderer \<Rightarrow> int Edge \<Rightarrow> int Edge \<Rightarrow> EdgeData option" where
  "edgePreRenderProcess r longEdge shortEdge =
     (let shortEdgeDeltaY = y1 shortEdge - y0 shortEdge
      in if shortEdgeDeltaY \<le> 0 then None
         else
           (let longEdgeDeltaY = y1 longEdge - y0 longEdge;
                longEdgeDeltaX = x1 longEdge - x0 longEdge;
                shortEdgeDeltaX = x1 shortEdge - x0 shortEdge;
                longStartZ = z0 longEdge;
                shortStartZ = z0 shortEdge;
                longEdgeDeltaZ = z1 longEdge - longStartZ;
                shortEdgeDeltaZ = z1 shortEdge - shortStartZ;
                longStartCoeff = real_of_int (y0 shortEdge - y0 longEdge) / real_of_int longEdgeDeltaY;
                longX0 = real_of_int (x0 longEdge) + real_of_int longEdgeDeltaX * longStartCoeff;
                longZ0 = longStartZ + longEdgeDeltaZ * longStartCoeff;
                longEdgeXincrement = real_of_int longEdgeDeltaX / real_of_int longEdgeDeltaY;
                longEdgeZincrement = longEdgeDeltaZ / real_of_int longEdgeDeltaY;
                shortX0 = real_of_int (x0 shortEdge);
                shortZ0 = shortStartZ;
                shortEdgeXincrement = real_of_int shortEdgeDeltaX / real_of_int shortEdgeDeltaY;
                shortEdgeZincrement = shortEdgeDeltaZ / real_of_int shortEdgeDeltaY;
                startLine0 = y0 shortEdge;
                stopLine0 = y1 shortEdge;
                (longX1, shortX1, longZ1, shortZ1, startLine1) =
                   (if startLine0 < 0
                    then (longX0 + real_of_int (- startLine0) * longEdgeXincrement,
                          shortX0 + real_of_int (- startLine0) * shortEdgeXincrement,
                          longZ0 + real_of_int (- startLine0) * longEdgeZincrement,
                          shortZ0 + real_of_int (- startLine0) * shortEdgeZincrement,
                          0)
                    else (longX0, shortX0, longZ0, shortZ0, startLine0));
                stopLine1 = (if stopLine0 > clipY r then clipY r else stopLine0)
            in Some \<lparr> startLine = startLine1, stopLine = stopLine1,
                       longX = longX1, shortX = shortX1, longZ = longZ1, shortZ = shortZ1,
                       longXIncrement = longEdgeXincrement, shortXIncrement = shortEdgeXincrement,
                       longZIncrement = longEdgeZincrement, shortZIncrement = shortEdgeZincrement \<rparr>))"

section \<open>Writing and probing spans of pixels\<close>

text \<open>A read of \<open>_depthData[index]\<close>: \<open>None\<close> is the \<open>undefined\<close> of a read outside
  the typed array.\<close>

definition readDepth :: "SoftwareRenderer \<Rightarrow> int \<Rightarrow> real option" where
  "readDepth r index =
     (if 0 \<le> index \<and> index < int (length (depthData r))
      then Some (depthData r ! nat index) else None)"

text \<open>
  The body of the pixel loop of \<open>_fillPixels\<close> (lines 1193-1196): the z-test and the
  write. A comparison with \<open>undefined\<close> is false, so nothing is written outside the array.
\<close>

definition depthTestWrite :: "int \<Rightarrow> real \<Rightarrow> SoftwareRenderer \<Rightarrow> SoftwareRenderer" where
  "depthTestWrite index depth r =
     (let r' = r\<lparr>accessed := accessed r @ [index]\<rparr>
      in case readDepth r index of
           None \<Rightarrow> r'
         | Some stored \<Rightarrow>
             if depth > stored then r'\<lparr>depthData := (depthData r)[nat index := depth]\<rparr> else r')"

text \<open>The pixel loop of \<open>_fillPixels\<close> (lines 1191-1200).\<close>

function fillLoop :: "int \<Rightarrow> int \<Rightarrow> int \<Rightarrow> real \<Rightarrow> real \<Rightarrow> SoftwareRenderer \<Rightarrow> SoftwareRenderer" where
  "fillLoop i rightX index depth depthIncrement r =
     (if i \<le> rightX
      then fillLoop (i + 1) rightX (index + 1) (depth + depthIncrement) depthIncrement
             (depthTestWrite index depth r)
      else r)"
  by pat_completeness auto
termination
  by (relation "measure (\<lambda>(i, rightX, index, depth, depthIncrement, r). nat (rightX + 1 - i))") auto

declare fillLoop.simps [simp del]

text \<open>The two range checks that both span routines make on their depth arguments
  (lines 1155-1161 and 1097-1103): an entry on the console, nothing else.\<close>

definition logDepth :: "string \<Rightarrow> real \<Rightarrow> SoftwareRenderer \<Rightarrow> SoftwareRenderer" where
  "logDepth label depth r =
     (if depth < 0 \<or> depth > 1.0000001 then r\<lparr>console := console r @ [(label, depth)]\<rparr> else r)"

text \<open>
  The horizontal clipping that both span routines share (lines 1168-1183 and 1109-1120):
  the span and its end depths after it, as (leftX, rightX, leftZ, rightZ). The right end
  is interpolated with the left end as already clipped.
\<close>

definition clipSpan :: "SoftwareRenderer \<Rightarrow> int \<Rightarrow> int \<Rightarrow> real \<Rightarrow> real \<Rightarrow> int \<times> int \<times> real \<times> real" where
  "clipSpan r leftX rightX leftZ rightZ =
     (let (leftZ1, leftX1) =
            (if leftX < 0
             then (let t = real_of_int (- leftX) / real_of_int (rightX - leftX + 1)
                   in ((1 - t) * leftZ + t * rightZ, 0))
             else (leftZ, leftX));
          diff = rightX - clipX r + 1;
          (rightZ1, rightX1) =
            (if diff > 0
             then (let t = real_of_int diff / real_of_int (rightX - leftX1 + 1)
                   in ((1 - t) * rightZ + t * leftZ1, clipX r))
             else (rightZ, rightX))
      in (leftX1, rightX1, leftZ1, rightZ1))"

text \<open>\<open>_fillPixels\<close> (lines 1149-1211). When the clipped span is one pixel wide the
  increment is a division by zero in the source; the loop ends before it is used.\<close>

definition fillPixels :: "int \<Rightarrow> int \<Rightarrow> int \<Rightarrow> real \<Rightarrow> real \<Rightarrow> SoftwareRenderer \<Rightarrow> SoftwareRenderer" where
  "fillPixels leftX rightX y leftZ rightZ r =
     (if rightX < 0 \<or> leftX > clipX r \<or> rightX < leftX then r
      else
        (let r1 = logDepth ''leftz : '' leftZ r;
             r2 = logDepth ''rightZ : '' rightZ r1;
             (leftX', rightX', leftZ', rightZ') = clipSpan r leftX rightX leftZ rightZ;
             index = y * width r + leftX';
             depth = leftZ';
             depthIncrement = (rightZ' - leftZ') / real_of_int (rightX' - leftX')
         in fillLoop leftX' rightX' index depth depthIncrement r2))"

text \<open>\<open>ToUint8\<close> of the runtime, as a store into a Uint8Array applies it: truncation
  towards zero, then modulo 256.\<close>

definition toUint8 :: "real \<Rightarrow> nat" where
  "toUint8 v = nat ((if v \<ge> 0 then \<lfloor>v\<rfloor> else \<lceil>v\<rceil>) mod 256)"

text \<open>
  The body of the pixel loop of \<open>_isScanlineOccluded\<close> (lines 1128-1135). The debug
  write \<open>_colorData.set([..., 0, 0], index * 4)\<close> raises RangeError when the three cells
  do not lie inside the colour array. \<open>Inr False\<close> is the early \<open>return false\<close>.
\<close>

definition probePixel :: "int \<Rightarrow> real \<Rightarrow> SoftwareRenderer \<Rightarrow> failure + (bool \<times> SoftwareRenderer)" where
  "probePixel index depth r =
     (if index * 4 < 0 \<or> index * 4 + 3 > int (length (colorData r)) then Inl RangeError
      else
        (let offset = nat (index * 4);
             r' = r\<lparr>colorData := (colorData r)[offset := toUint8 (min (depth * 255 + 50) 255),
                                                   offset + 1 := 0, offset + 2 := 0],
                    accessed := accessed r @ [index]\<rparr>
         in case readDepth r index of
              None \<Rightarrow> Inr (True, r')
            | Some stored \<Rightarrow> Inr (\<not> depth > stored, r')))"

text \<open>The pixel loop of \<open>_isScanlineOccluded\<close> (lines 1126-1141).\<close>

function probeLoop ::
  "int \<Rightarrow> int \<Rightarrow> int \<Rightarrow> real \<Rightarrow> real \<Rightarrow> SoftwareRenderer \<Rightarrow> failure + (bool \<times> SoftwareRenderer)" where
  "probeLoop i rightX index depth depthIncrement r =
     (if i \<le> rightX
      then (case probePixel index depth r of
              Inl e \<Rightarrow> Inl e
            | Inr (False, r') \<Rightarrow> Inr (False, r')
            | Inr (True, r') \<Rightarrow>
                probeLoop (i + 1) rightX (index + 1) (depth + depthIncrement) depthIncrement r')
      else Inr (True, r))"
  by pat_completeness auto
termination
  by (relation "measure (\<lambda>(i, rightX, index, depth, depthIncrement, r). nat (rightX + 1 - i))") auto

declare probeLoop.simps [simp del]

text \<open>\<open>_isScanlineOccluded\<close> (lines 1089-1142).\<close>

definition isScanlineOccluded ::
  "int \<Rightarrow> int \<Rightarrow> int \<Rightarrow> real \<Rightarrow> real \<Rightarrow> SoftwareRenderer \<Rightarrow> failure + (bool \<times> SoftwareRenderer)" where
  "isScanlineOccluded leftX rightX y leftZ rightZ r =
     (if rightX < 0 \<or> leftX > clipX r \<or> rightX < leftX then Inr (True, r)
      else
        (let r1 = logDepth ''leftZ : '' leftZ r;
             r2 = logDepth ''rightZ : '' rightZ r1;
             (leftX', rightX', leftZ', rightZ') = clipSpan r leftX rightX leftZ rightZ;
             index = y * width r + leftX';
             depth = leftZ';
             depthIncrement = (rightZ' - leftZ') / real_of_int (rightX' - leftX')
         in probeLoop leftX' rightX' index depth depthIncrement r2))"

section \<open>Rasterising and probing a triangle\<close>

text \<open>
  The body of the scanline loops of \<open>_drawEdges\<close> (lines 846-995), up to the call of
  \<open>_fillPixels\<close>: the span (leftX, rightX, leftZ, rightZ) of the current line. The
  source has the loop four times; the copies differ in which edge is the left one
  (\<open>orientationData[0]\<close>, long edge on the right) and in which end depth is moved
  (\<open>orientationData[1]\<close>, leaning inwards), as written here.
\<close>

definition occluderSpan :: "bool \<times> bool \<Rightarrow> EdgeData \<Rightarrow> int \<times> int \<times> real \<times> real" where
  "occluderSpan orientationData edgeData =
     (let realLeftX = (if fst orientationData then shortX edgeData else longX edgeData);
          realRightX = (if fst orientationData then longX edgeData else shortX edgeData);
          leftZ = (if fst orientationData then shortZ edgeData else longZ edgeData);
          rightZ = (if fst orientationData then longZ edgeData else shortZ edgeData);
          leftX = \<lceil>realLeftX\<rceil>;
          rightX = \<lfloor>realRightX\<rfloor>
      in if snd orientationData then
           (let offset = real_of_int leftX - realLeftX;
                spanLength = realRightX - realLeftX;
                t = offset / spanLength;
                leftZ1 = (1 - t) * leftZ + t * rightZ;
                spanLength' = real_of_int (rightX - leftX + 1);
                t' = 0.5 / spanLength';
                leftZ2 = (1 - t') * leftZ1 + t' * rightZ
            in (leftX, rightX, leftZ2, rightZ))
         else
           (let offset = realRightX - real_of_int rightX;
                spanLength = realRightX - realLeftX;
                t = offset / spanLength;
                rightZ1 = (1 - t) * rightZ + t * leftZ;
                spanLength' = real_of_int (rightX - leftX + 1);
                t' = 0.5 / spanLength';
                rightZ2 = (1 - t') * rightZ1 + t' * leftZ
            in (leftX, rightX, leftZ, rightZ2)))"

text \<open>One scanline loop of \<open>_drawEdges\<close>: \<open>for (y = startLine; y <= stopLine; y++)\<close>.\<close>

function drawLoop :: "bool \<times> bool \<Rightarrow> int \<Rightarrow> int \<Rightarrow> EdgeData \<Rightarrow> SoftwareRenderer \<Rightarrow> SoftwareRenderer" where
  "drawLoop orientationData y stopLine' edgeData r =
     (if y \<le> stopLine'
      then (let (leftX, rightX, leftZ, rightZ) = occluderSpan orientationData edgeData
            in drawLoop orientationData (y + 1) stopLine' (updateEdgeDataToNextLine edgeData)
                 (fillPixels leftX rightX y leftZ rightZ r))
      else r)"
  by pat_completeness auto
termination
  by (relation "measure (\<lambda>(orientationData, y, stopLine', edgeData, r). nat (stopLine' + 1 - y))") auto

declare drawLoop.simps [simp del]

text \<open>\<open>_drawEdges\<close> (lines 846-995).\<close>

definition drawEdges :: "EdgeData \<Rightarrow> bool \<times> bool \<Rightarrow> SoftwareRenderer \<Rightarrow> SoftwareRenderer" where
  "drawEdges edgeData orientationData r =
     drawLoop orientationData (startLine edgeData) (stopLine edgeData) edgeData r"

text \<open>
  The body of the scanline loops of \<open>_isEdgeOccluded\<close> (lines 679-838), up to the call
  of \<open>_isScanlineOccluded\<close>; again the four copies of the source differ in the left edge
  and in the end depth that is moved.
\<close>

definition occludeeSpan :: "bool \<times> bool \<Rightarrow> EdgeData \<Rightarrow> int \<times> int \<times> real \<times> real" where
  "occludeeSpan orientationData edgeData =
     (let realLeftX = (if fst orientationData then shortX edgeData else longX edgeData);
          realRightX = (if fst orientationData then longX edgeData else shortX edgeData);
          leftX = \<lfloor>realLeftX\<rfloor>;
          rightX = \<lceil>realRightX\<rceil>;
          leftZ = (if fst orientationData then shortZ edgeData else longZ edgeData);
          rightZ = (if fst orientationData then longZ edgeData else shortZ edgeData);
          dif = rightX - leftX;
          (leftZ1, rightZ1) =
            (if dif > 1
             then (let slope = (rightZ - leftZ) / (realRightX - realLeftX);
                       rightZ' = leftZ + (real_of_int rightX - realLeftX) * slope;
                       leftZ' = leftZ + (real_of_int leftX - realLeftX) * slope
                   in (max 0 leftZ', max 0 rightZ'))
             else (leftZ, rightZ));
          t = 0.5 / real_of_int (dif + 1)
      in if snd orientationData
         then (leftX, rightX, leftZ1, (1 - t) * rightZ1 + t * leftZ1)
         else (leftX, rightX, (1 - t) * leftZ1 + t * rightZ1, rightZ1))"

text \<open>One scanline loop of \<open>_isEdgeOccluded\<close>, with its early \<open>return false\<close>.\<close>

function occludedLoop ::
  "bool \<times> bool \<Rightarrow> int \<Rightarrow> int \<Rightarrow> EdgeData \<Rightarrow> SoftwareRenderer \<Rightarrow> failure + (bool \<times> SoftwareRenderer)" where
  "occludedLoop orientationData y stopLine' edgeData r =
     (if y \<le> stopLine'
      then (let (leftX, rightX, leftZ, rightZ) = occludeeSpan orientationData edgeData
            in case isScanlineOccluded leftX rightX y leftZ rightZ r of
                 Inl e \<Rightarrow> Inl e
               | Inr (False, r') \<Rightarrow> Inr (False, r')
               | Inr (True, r') \<Rightarrow>
                   occludedLoop orientationData (y + 1) stopLine' (updateEdgeDataToNextLine edgeData) r')
      else Inr (True, r))"
  by pat_completeness auto
termination
  by (relation "measure (\<lambda>(orientationData, y, stopLine', edgeData, r). nat (stopLine' + 1 - y))") auto

declare occludedLoop.simps [simp del]

text \<open>\<open>_isEdgeOccluded\<close> (lines 679-838).\<close>

definition isEdgeOccluded ::
  "EdgeData \<Rightarrow> bool \<times> bool \<Rightarrow> SoftwareRenderer \<Rightarrow> failure + (bool \<times> SoftwareRenderer)" where
  "isEdgeOccluded edgeData orientationData r =
     occludedLoop orientationData (startLine edgeData) (stopLine edgeData) edgeData r"

text \<open>
  \<open>_renderTriangle\<close> (lines 597-657). \<open>longEdge\<close> is a reference into \<open>_edges\<close>: the
  vertical cull reads it before the rounding, everything after reads the rounded edge
  with inverted depths.
\<close>

definition renderTriangle :: "SoftwareRenderer \<Rightarrow> Triangle \<Rightarrow> SoftwareRenderer" where
  "renderTriangle r triangle =
     (let (edges, edgeIndices) = createEdgesForTriangle triangle;
          s1 = edgeIndices ! 1;
          s2 = edgeIndices ! 2
      in if verticalLongEdgeCull r (edges ! (edgeIndices ! 0)) then r
         else
           (let edges' = map (\<lambda>e. invertZ (roundOccluderCoordinates e)) edges;
                longEdge = edges' ! (edgeIndices ! 0);
                shortEdge = edges' ! s1;
                shortEdge' = edges' ! s2
            in case edgePreRenderProcess r longEdge shortEdge of
                 Some edgeData \<Rightarrow>
                   (let orientationData = calculateOrientationData edgeData shortEdge longEdge
                    in if horizontalLongEdgeCull r longEdge orientationData then r
                       else
                         (let r1 = drawEdges edgeData orientationData r
                          in case edgePreRenderProcess r1 longEdge shortEdge' of
                               Some edgeData' \<Rightarrow> drawEdges edgeData' orientationData r1
                             | None \<Rightarrow> r1))
               | None \<Rightarrow>
                   (case edgePreRenderProcess r longEdge shortEdge' of
                      Some edgeData' \<Rightarrow>
                        (let orientationData = calculateOrientationData edgeData' shortEdge' longEdge
                         in if horizontalLongEdgeCull r longEdge orientationData then r
                            else drawEdges edgeData' orientationData r)
                    | None \<Rightarrow> r)))"

text \<open>\<open>isRenderedTriangleOccluded\<close> (lines 532-591).\<close>

definition isRenderedTriangleOccluded ::
  "SoftwareRenderer \<Rightarrow> Triangle \<Rightarrow> failure + (bool \<times> SoftwareRenderer)" where
  "isRenderedTriangleOccluded r triangle =
     (let (edges, edgeIndices) = createEdgesForTriangle triangle;
          s1 = edgeIndices ! 1;
          s2 = edgeIndices ! 2
      in if verticalLongEdgeCull r (edges ! (edgeIndices ! 0)) then Inr (True, r)
         else
           (let edges' = map (\<lambda>e. invertZ (roundOccludeeCoordinates e)) edges;
                longEdge = edges' ! (edgeIndices ! 0);
                shortEdge = edges' ! s1;
                shortEdge' = edges' ! s2
            in case edgePreRenderProcess r longEdge shortEdge of
                 Some edgeData \<Rightarrow>
                   (let orientationData = calculateOrientationData edgeData shortEdge longEdge
                    in if horizontalLongEdgeCull r longEdge orientationData then Inr (True, r)
                       else
                         (case isEdgeOccluded edgeData orientationData r of
                            Inl e \<Rightarrow> Inl e
                          | Inr (False, r1) \<Rightarrow> Inr (False, r1)
                          | Inr (True, r1) \<Rightarrow>
                              (case edgePreRenderProcess r1 longEdge shortEdge' of
                                 Some edgeData' \<Rightarrow> isEdgeOccluded edgeData' orientationData r1
                               | None \<Rightarrow> Inr (True, r1))))
               | None \<Rightarrow>
                   (case edgePreRenderProcess r longEdge shortEdge' of
                      Some edgeData' \<Rightarrow>
                        (let orientationData = calculateOrientationData edgeData' shortEdge' longEdge
                         in if horizontalLongEdgeCull r longEdge orientationData then Inr (True, r)
                            else isEdgeOccluded edgeData' orientationData r)
                    | None \<Rightarrow> Inr (True, r))))"

section \<open>The two entry points\<close>

text \<open>The entity loop of \<open>render\<close> (lines 82-88): the renderer after the loop, and what
  stopped the loop if anything did.\<close>

fun renderLoop ::
  "SoftwareRenderer \<Rightarrow> Matrix4x4 \<Rightarrow> Matrix4x4 \<Rightarrow> Entity list \<Rightarrow> SoftwareRenderer \<times> failure option" where
  "renderLoop r cameraViewMatrix cameraProjectionMatrix [] = (r, None)"
| "renderLoop r cameraViewMatrix cameraProjectionMatrix (entity # rest) =
     (case createTrianglesForEntity r entity cameraViewMatrix cameraProjectionMatrix of
        Inl e \<Rightarrow> (r, Some e)
      | Inr triangles \<Rightarrow>
          renderLoop (foldl renderTriangle r triangles) cameraViewMatrix cameraProjectionMatrix rest)"

text \<open>\<open>render\<close> (lines 74-89). The depth buffer is cleared before the camera is read,
  so a missing camera raises TypeError with the buffer cleared.\<close>

definition render :: "SoftwareRenderer \<Rightarrow> Entity list \<Rightarrow> SoftwareRenderer \<times> failure option" where
  "render r renderList =
     (let r1 = clearDepthData r
      in case camera r1 of
           None \<Rightarrow> (r1, Some TypeError)
         | Some cam \<Rightarrow> renderLoop r1 (viewMatrix cam) (projectionMatrix cam) renderList)"

text \<open>
  The two occlusion modules are not among the sources. \<open>performOcclusionCulling\<close> takes
  their \<open>occlusionCull\<close> methods as parameters: functions of the renderer they hold and
  of the arguments of the call, to the verdict "cull this entity".
\<close>

type_synonym SphereModule = "SoftwareRenderer \<Rightarrow> Entity \<Rightarrow> Matrix4x4 \<Rightarrow> Matrix4x4 \<Rightarrow> real \<Rightarrow> bool"
type_synonym BoxModule = "SoftwareRenderer \<Rightarrow> Entity \<Rightarrow> Matrix4x4 \<Rightarrow> bool"

text \<open>
  The loop state of \<open>performOcclusionCulling\<close>: the variable \<open>cull\<close> (\<open>None\<close> is
  \<open>undefined\<close>), \<open>visibleEntities\<close>, and the entities for which a module has been
  called, in order. \<open>var cull;\<close> stands inside the loop body, but a \<open>var\<close> belongs to
  the function and a declaration without initialiser assigns nothing: the variable keeps
  its value from one iteration to the next.
\<close>

record CullState =
  cull :: "bool option"
  visibleEntities :: "Entity list"
  probed :: "Entity list"

text \<open>The body of the loop (lines 105-121) for one entity.\<close>

definition cullStep ::
  "SphereModule \<Rightarrow> BoxModule \<Rightarrow> SoftwareRenderer \<Rightarrow> Camera \<Rightarrow> CullState \<Rightarrow> Entity \<Rightarrow> CullState" where
  "cullStep boundingSphereModule boundingBoxModule r cam st entity =
     (let cameraViewMatrix = viewMatrix cam;
          cameraProjectionMatrix = projectionMatrix cam;
          cameraViewProjectionMatrix = combine cameraProjectionMatrix cameraViewMatrix;
          cameraNearZInWorld = - near cam
      in if cullMode entity \<noteq> ''NeverOcclusionCull'' then
           (let st1 = (case modelBound entity of
                         BoundingSphere c rad \<Rightarrow>
                           st\<lparr>cull := Some (boundingSphereModule r entity cameraViewMatrix
                                               cameraProjectionMatrix cameraNearZInWorld),
                              probed := probed st @ [entity]\<rparr>
                       | BoundingBox c ext \<Rightarrow>
                           st\<lparr>cull := Some (boundingBoxModule r entity cameraViewProjectionMatrix),
                              probed := probed st @ [entity]\<rparr>
                       | OtherBound \<Rightarrow> st)
            in if cull st1 \<noteq> Some True
               then st1\<lparr>visibleEntities := visibleEntities st1 @ [entity]\<rparr>
               else st1)
         else st\<lparr>visibleEntities := visibleEntities st @ [entity]\<rparr>)"

text \<open>\<open>performOcclusionCulling\<close> (lines 96-125): the final loop state, whose
  \<open>visibleEntities\<close> the source returns; TypeError when the camera is missing.\<close>

definition performOcclusionCulling ::
  "SphereModule \<Rightarrow> BoxModule \<Rightarrow> SoftwareRenderer \<Rightarrow> Entity list \<Rightarrow> failure + CullState" where
  "performOcclusionCulling boundingSphereModule boundingBoxModule r renderList =
     (case camera r of
        None \<Rightarrow> Inl TypeError
      | Some cam \<Rightarrow>
          Inr (foldl (cullStep boundingSphereModule boundingBoxModule r cam)
                 \<lparr> cull = None, visibleEntities = [], probed = [] \<rparr> renderList))"

section \<open>Notions used in the statements\<close>

text \<open>The cull mode that exempts an entity from occlusion culling (line 106).\<close>

definition neverCull :: "Entity \<Rightarrow> bool" where
  "neverCull entity \<longleftrightarrow> cullMode entity = ''NeverOcclusionCull''"

text \<open>Two renderer states with the same fields other than the buffers, the console and
  the record of accesses; and the pointwise order of their depth buffers.\<close>

definition sameConfig :: "SoftwareRenderer \<Rightarrow> SoftwareRenderer \<Rightarrow> bool" where
  "sameConfig r r' \<longleftrightarrow>
     width r = width r' \<and> height r = height r' \<and> clipX r = clipX r' \<and> clipY r = clipY r'
     \<and> camera r = camera r' \<and> depthClear r = depthClear r'"

definition depthLe :: "SoftwareRenderer \<Rightarrow> SoftwareRenderer \<Rightarrow> bool" where
  "depthLe r r' \<longleftrightarrow> sameConfig r r' \<and> list_all2 (\<le>) (depthData r) (depthData r')"

text \<open>A mesh whose positions are triples and whose indices are triples that name
  existing positions: what \<open>_createTrianglesForEntity\<close> needs to build defined vertices.\<close>

definition wellFormedMesh :: "Entity \<Rightarrow> bool" where
  "wellFormedMesh entity \<longleftrightarrow>
     length (positions entity) mod 3 = 0 \<and> length (indexData entity) mod 3 = 0
     \<and> list_all (\<lambda>vertIndex. vertIndex * 3 + 2 < length (positions entity)) (indexData entity)"

text \<open>
  A renderer as the constructor leaves it and as the operations keep it: the clipping
  bounds belong to the size, the depth buffer and the clear buffer have
  \<open>width * height\<close> cells and the colour buffer four per depth cell.
\<close>

definition wellFormed :: "SoftwareRenderer \<Rightarrow> bool" where
  "wellFormed r \<longleftrightarrow>
     clipX r = width r - 1 \<and> clipY r = height r - 1
     \<and> length (depthData r) = nat (width r * height r)
     \<and> length (depthClear r) = length (depthData r)
     \<and> length (colorData r) = 4 * length (depthData r)"

text \<open>The renderer that the constructor builds: clipping bounds from the size, zeroed
  buffers of \<open>width * height\<close> cells, nothing logged and nothing accessed.\<close>

definition blankRenderer :: "int \<Rightarrow> int \<Rightarrow> Camera option \<Rightarrow> SoftwareRenderer" where
  "blankRenderer w h cam =
     \<lparr> width = w, height = h, clipY = h - 1, clipX = w - 1, camera = cam,
       colorData = replicate (nat (w * h * 4)) 0,
       depthData = replicate (nat (w * h)) 0,
       depthClear = replicate (nat (w * h)) 0,
       console = [], accessed = [] \<rparr>"

text \<open>An index of the depth buffer that is in bounds.\<close>

definition inBounds :: "SoftwareRenderer \<Rightarrow> int \<Rightarrow> bool" where
  "inBounds r index \<longleftrightarrow>
     0 \<le> index \<and> index < width r * height r \<and> index < int (length (depthData r))"

text \<open>The depth-buffer accesses made between two states, and the statement that the
  later state extends the record of the earlier by accesses that are all in bounds.\<close>

definition newAccesses :: "SoftwareRenderer \<Rightarrow> SoftwareRenderer \<Rightarrow> int list" where
  "newAccesses r r' = drop (length (accessed r)) (accessed r')"

definition accessesWithin :: "SoftwareRenderer \<Rightarrow> SoftwareRenderer \<Rightarrow> bool" where
  "accessesWithin r r' \<longleftrightarrow>
     take (length (accessed r)) (accessed r') = accessed r
     \<and> list_all (inBounds r) (newAccesses r r')"

text \<open>A step of the rasteriser or of the probe: the fields other than the buffers stay,
  the buffers keep their sizes, and all accesses are in bounds.\<close>

definition boundedStep :: "SoftwareRenderer \<Rightarrow> SoftwareRenderer \<Rightarrow> bool" where
  "boundedStep r r' \<longleftrightarrow>
     sameConfig r r' \<and> length (depthData r') = length (depthData r)
     \<and> length (colorData r') = length (colorData r) \<and> accessesWithin r r'"

text \<open>
  The outcome of a probe that started in state \<open>r\<close>: no exception, a bounded step that
  leaves the depth buffer as it was, and a verdict "not occluded" only after at least one
  depth cell has been read.
\<close>

definition probeStep :: "SoftwareRenderer \<Rightarrow> failure + (bool \<times> SoftwareRenderer) \<Rightarrow> bool" where
  "probeStep r outcome =
     (case outcome of
        Inl e \<Rightarrow> False
      | Inr (occluded, r') \<Rightarrow>
          boundedStep r r' \<and> depthData r' = depthData r
          \<and> (occluded \<or> newAccesses r r' \<noteq> []))"



text \<open>A triangle with a function applied to its three vertices, and what
  \<open>_projectionTransform\<close> followed by \<open>_transformToScreenSpace\<close> does to one vertex.\<close>

definition mapTriangle :: "(Vector4 \<Rightarrow> Vector4) \<Rightarrow> Triangle \<Rightarrow> Triangle" where
  "mapTriangle f t = Triangle (f (triV1 t)) (f (triV2 t)) (f (triV3 t))"

definition toScreen :: "SoftwareRenderer \<Rightarrow> Matrix4x4 \<Rightarrow> Vector4 \<Rightarrow> Vector4" where
  "toScreen r matrix v = hd (transformToScreenSpace r (projectionTransform [v] matrix))"

section \<open>A small scene\<close>

text \<open>A camera at the origin looking down \<open>-z\<close> with \<open>near = 1\<close> and \<open>far = 100\<close>
  (field of view 90 degrees, aspect 1), and entities for it.\<close>

definition identityMatrix :: Matrix4x4 where
  "identityMatrix = Matrix4x4 (Vector4 1 0 0 0) (Vector4 0 1 0 0) (Vector4 0 0 1 0) (Vector4 0 0 0 1)"

definition exampleProjection :: Matrix4x4 where
  "exampleProjection =
     Matrix4x4 (Vector4 1 0 0 0) (Vector4 0 1 0 0)
               (Vector4 0 0 (- (101 / 99)) (- (200 / 99))) (Vector4 0 0 (- 1) 0)"

definition exampleCamera :: Camera where
  "exampleCamera = \<lparr> near = 1, viewMatrix = identityMatrix, projectionMatrix = exampleProjection \<rparr>"

text \<open>A runtime that allocates buffers below \<open>2^31\<close> bytes and whose module constructors
  return.\<close>

definition exampleRuntime :: Runtime where
  "exampleRuntime =
     \<lparr> canAllocate = (\<lambda>n. n < 2 ^ 31),
       newBoundingBoxOcclusionModule = (\<lambda>r. None),
       newBoundingSphereOcclusionModule = (\<lambda>r. None) \<rparr>"

text \<open>The renderer that the constructor returns there for width 4, height 2 and the camera.\<close>

definition exampleRenderer :: SoftwareRenderer where
  "exampleRenderer =
     \<lparr> width = 4, height = 2, clipY = 1, clipX = 3, camera = Some exampleCamera,
       colorData = replicate 32 0, depthData = replicate 8 0, depthClear = replicate 8 0,
       console = [], accessed = [] \<rparr>"

text \<open>An occluder of one triangle in front of the camera, counter-clockwise.\<close>

definition exampleOccluder :: Entity where
  "exampleOccluder =
     \<lparr> cullMode = ''Dynamic'', modelBound = OtherBound,
       positions = [- 2, - 2, - 2,  2, - 2, - 2,  2, 2, - 2],
       indexData = [0, 1, 2], worldTransform = identityMatrix \<rparr>"

text \<open>Occlusion modules that cull whatever they are asked about, and candidates: one with
  a bounding box, the same flagged never to be culled, and the same with a bound that is
  neither a sphere nor a box.\<close>

definition sphereCullsAll :: SphereModule where
  "sphereCullsAll r entity cameraViewMatrix cameraProjectionMatrix cameraNearZInWorld = True"

definition boxCullsAll :: BoxModule where
  "boxCullsAll r entity cameraViewProjectionMatrix = True"

definition exampleBoxed :: Entity where
  "exampleBoxed =
     \<lparr> cullMode = ''Dynamic'', modelBound = BoundingBox (0, 0, - 5) (1, 1, 1),
       positions = [], indexData = [], worldTransform = identityMatrix \<rparr>"

definition exampleNeverCulled :: Entity where
  "exampleNeverCulled = exampleBoxed\<lparr> cullMode := ''NeverOcclusionCull'' \<rparr>"

definition exampleUnbounded :: Entity where
  "exampleUnbounded = exampleBoxed\<lparr> modelBound := OtherBound \<rparr>"

text \<open>A second occluder, nearer, one of whose vertices lies between the camera and
  the near plane.\<close>

definition exampleNearOccluder :: Entity where
  "exampleNearOccluder =
     \<lparr> cullMode = ''Dynamic'', modelBound = OtherBound,
       positions = [- 1, - 1, - (3 / 2),  1, - 1, - (3 / 2),  0, 1, - (1 / 2)],
       indexData = [0, 1, 2], worldTransform = identityMatrix \<rparr>"

text \<open>A triangle in screen space (pixel coordinates, \<open>w = 2\<close>) for the example renderer.\<close>

definition exampleTriangle :: Triangle where
  "exampleTriangle = Triangle (Vector4 0 0 (2 / 99) 2) (Vector4 3 0 (2 / 99) 2) (Vector4 3 1 (2 / 99) 2)"

section \<open>Back-face culling (C1)\<close>

text \<open>
  C1 as the specification states it: \<open>_isBackFacingCameraViewSpace(v1, v2, v3)\<close> is true
  exactly when \<open>((v3 - v1) \<times> (v2 - v1)) . v1 > 0\<close>. It fails for the counter-clockwise
  triangle \<open>(0, 0, -2)\<close>, \<open>(1, 0, -2)\<close>, \<open>(0, 1, -2)\<close> in front of the camera: the
  function returns false (the triangle is kept), while \<open>(e2 \<times> e1) . v1 = 2\<close>.
\<close>

theorem backface_counterexample:
  "\<not> (isBackFacingCameraViewSpace (Vector4 0 0 (- 2) 1) (Vector4 1 0 (- 2) 1) (Vector4 0 1 (- 2) 1)
       \<longleftrightarrow> 0 < dot3 (cross3 (sub3 (xyz (Vector4 0 1 (- 2) 1)) (xyz (Vector4 0 0 (- 2) 1)))
                           (sub3 (xyz (Vector4 1 0 (- 2) 1)) (xyz (Vector4 0 0 (- 2) 1))))
                   (xyz (Vector4 0 0 (- 2) 1)))"
  by (simp add: isBackFacingCameraViewSpace_def xyz_def)

text \<open>
  C1, amended: the array \<open>faceNormal\<close> of the source holds \<open>e1 \<times> e2\<close>, so, in exact
  arithmetic, the function returns true exactly when \<open>((v2 - v1) \<times> (v3 - v1)) . v1 > 0\<close>, that is when
  \<open>((v3 - v1) \<times> (v2 - v1)) . v1 < 0\<close>; and a triangle with that sign yields no
  triangle, before any clipping.
\<close>

theorem backface_sign:
  "(isBackFacingCameraViewSpace v1 v2 v3
      \<longleftrightarrow> 0 < dot3 (cross3 (sub3 (xyz v2) (xyz v1)) (sub3 (xyz v3) (xyz v1))) (xyz v1))
   \<and> (isBackFacingCameraViewSpace v1 v2 v3
      \<longleftrightarrow> dot3 (cross3 (sub3 (xyz v3) (xyz v1)) (sub3 (xyz v2) (xyz v1))) (xyz v1) < 0)
   \<and> (0 < dot3 (cross3 (sub3 (xyz v2) (xyz v1)) (sub3 (xyz v3) (xyz v1))) (xyz v1)
      \<longrightarrow> createTrianglesForVertices r cam cameraProjectionMatrix v1 v2 v3 = [])"
proof -
  have eq: "isBackFacingCameraViewSpace v1 v2 v3
      \<longleftrightarrow> 0 < dot3 (cross3 (sub3 (xyz v2) (xyz v1)) (sub3 (xyz v3) (xyz v1))) (xyz v1)"
    by (simp add: isBackFacingCameraViewSpace_def xyz_def Let_def algebra_simps)
  have flip: "dot3 (cross3 (sub3 (xyz v3) (xyz v1)) (sub3 (xyz v2) (xyz v1))) (xyz v1)
      = - dot3 (cross3 (sub3 (xyz v2) (xyz v1)) (sub3 (xyz v3) (xyz v1))) (xyz v1)"
    by (simp add: xyz_def algebra_simps)
  have drop: "isBackFacingCameraViewSpace v1 v2 v3
      \<Longrightarrow> createTrianglesForVertices r cam cameraProjectionMatrix v1 v2 v3 = []"
    by (simp add: createTrianglesForVertices_def)
  show ?thesis using eq flip drop by auto
qed

theorem backface_sign_witness:
  "0 < dot3 (cross3 (sub3 (xyz (Vector4 0 1 (- 2) 1)) (xyz (Vector4 0 0 (- 2) 1)))
                    (sub3 (xyz (Vector4 1 0 (- 2) 1)) (xyz (Vector4 0 0 (- 2) 1))))
            (xyz (Vector4 0 0 (- 2) 1))
   \<and> isBackFacingCameraViewSpace (Vector4 0 0 (- 2) 1) (Vector4 0 1 (- 2) 1) (Vector4 1 0 (- 2) 1)
   \<and> createTrianglesForVertices exampleRenderer exampleCamera exampleProjection
        (Vector4 0 0 (- 2) 1) (Vector4 0 1 (- 2) 1) (Vector4 1 0 (- 2) 1) = []"
proof -
  have pos: "0 < dot3 (cross3 (sub3 (xyz (Vector4 0 1 (- 2) 1)) (xyz (Vector4 0 0 (- 2) 1)))
                    (sub3 (xyz (Vector4 1 0 (- 2) 1)) (xyz (Vector4 0 0 (- 2) 1))))
            (xyz (Vector4 0 0 (- 2) 1))"
    by (simp add: xyz_def)
  from backface_sign[of "Vector4 0 0 (- 2) 1" "Vector4 0 1 (- 2) 1" "Vector4 1 0 (- 2) 1"
      exampleRenderer exampleCamera exampleProjection] pos
  show ?thesis by simp
qed

section \<open>Near-plane clipping (C2)\<close>

lemma categorizeVertices_three: "categorizeVertices [v1, v2, v3] c =
  ((if data2 v1 \<le> c then [] else [0]) @ (if data2 v2 \<le> c then [] else [1]) @ (if data2 v3 \<le> c then [] else [2]),
   (if data2 v1 \<le> c then [0] else []) @ (if data2 v2 \<le> c then [1] else []) @ (if data2 v3 \<le> c then [2] else []))"
  by (simp add: categorizeVertices_def upt_rec numeral_3_eq_3 numeral_2_eq_2)

lemma ratio_on_near_plane:
  fixes zo zt n :: real
  assumes "zt \<le> - n" and "- n < zo"
  shows "zo + (zo + n) / (zo - zt) * (zt - zo) = - n"
proof -
  have "zo - zt \<noteq> 0" using assms by linarith
  then have "(zo + n) / (zo - zt) * (zt - zo) = - (zo + n)"
    by (simp add: field_simps)
  then show ?thesis by linarith
qed

lemma intersection_z:
  assumes "data2 target \<le> - n" and "- n < data2 origin"
  shows "data2 origin + calculateIntersectionRatio origin target n * (data2 target - data2 origin) = - n"
  unfolding calculateIntersectionRatio_def using assms by (rule ratio_on_near_plane)

lemma clipTriangle_z:
  assumes "t \<in> set (clipTriangle n v1 v2 v3)" and "v \<in> set (triangleVertices t)"
  shows "data2 v \<le> - n"
  using assms
  apply (cases "data2 v1 \<le> - n"; cases "data2 v2 \<le> - n"; cases "data2 v3 \<le> - n")
  apply (auto simp: clipTriangle_def categorizeVertices_three clipToNearPlane_def createTriangles_def
      triangleVertices_def Let_def intersection_z split: if_splits)
  done

text \<open>
  \<open>clipTriangle\<close> is the clipper of \<open>_createTrianglesForEntity\<close> before projection: the
  triangles that the source pushes for one input triangle are its triangles with every
  vertex projected and mapped to the screen.
\<close>

lemma to_screen_map:
  "transformToScreenSpace r (projectionTransform vertices matrix) = map (toScreen r matrix) vertices"
  by (simp add: toScreen_def transformToScreenSpace_def projectionTransform_def Let_def)

lemma createTrianglesForVertices_clipTriangle:
  "createTrianglesForVertices r cam cameraProjectionMatrix v1 v2 v3 =
     map (mapTriangle (toScreen r cameraProjectionMatrix)) (clipTriangle (near cam) v1 v2 v3)"
  unfolding createTrianglesForVertices_def clipTriangle_def to_screen_map
  apply (cases "data2 v1 \<le> - near cam"; cases "data2 v2 \<le> - near cam"; cases "data2 v3 \<le> - near cam")
         apply (simp_all add: categorizeVertices_three clipToNearPlane_def createTriangles_def
      mapTriangle_def Let_def)
  done

lemma clipTriangle_front:
  assumes "\<not> isBackFacingCameraViewSpace v1 v2 v3"
    and "categorizeVertices [v1, v2, v3] (- n) = (outsideIndices, insideIndices)"
  shows "clipTriangle n v1 v2 v3 =
           (case clipToNearPlane n [v1, v2, v3] outsideIndices insideIndices of
              None \<Rightarrow> [] | Some vertices' \<Rightarrow> createTriangles vertices' outsideIndices insideIndices)"
  using assms by (simp add: clipTriangle_def)

lemma clip_one_outside:
  assumes "categorizeVertices [v1, v2, v3] (- n) = (outsideIndices, insideIndices)"
    and "length outsideIndices = 1"
  shows "\<exists>vertices'. clipToNearPlane n [v1, v2, v3] outsideIndices insideIndices = Some vertices'
     \<and> length vertices' = 4
     \<and> xyz (vertices' ! (outsideIndices ! 0)) =
         specIntersection n ([v1, v2, v3] ! (outsideIndices ! 0)) ([v1, v2, v3] ! (insideIndices ! 0))
     \<and> xyz (vertices' ! 3) =
         specIntersection n ([v1, v2, v3] ! (outsideIndices ! 0)) ([v1, v2, v3] ! (insideIndices ! 1))
     \<and> vertices' ! (insideIndices ! 0) = [v1, v2, v3] ! (insideIndices ! 0)
     \<and> vertices' ! (insideIndices ! 1) = [v1, v2, v3] ! (insideIndices ! 1)"
  using assms
  apply (cases "data2 v1 \<le> - n"; cases "data2 v2 \<le> - n"; cases "data2 v3 \<le> - n")
         apply (auto simp: categorizeVertices_three clipToNearPlane_def Let_def xyz_def
      specIntersection_def specRatio_def calculateIntersectionRatio_def)
  done

lemma clip_two_outside:
  assumes "categorizeVertices [v1, v2, v3] (- n) = (outsideIndices, insideIndices)"
    and "length outsideIndices = 2"
  shows "\<exists>vertices'. clipToNearPlane n [v1, v2, v3] outsideIndices insideIndices = Some vertices'
     \<and> length vertices' = 3
     \<and> xyz (vertices' ! (outsideIndices ! 0)) =
         specIntersection n ([v1, v2, v3] ! (outsideIndices ! 0)) ([v1, v2, v3] ! (insideIndices ! 0))
     \<and> xyz (vertices' ! (outsideIndices ! 1)) =
         specIntersection n ([v1, v2, v3] ! (outsideIndices ! 1)) ([v1, v2, v3] ! (insideIndices ! 0))
     \<and> vertices' ! (insideIndices ! 0) = [v1, v2, v3] ! (insideIndices ! 0)"
  using assms
  apply (cases "data2 v1 \<le> - n"; cases "data2 v2 \<le> - n"; cases "data2 v3 \<le> - n")
         apply (auto simp: categorizeVertices_three clipToNearPlane_def Let_def xyz_def
      specIntersection_def specRatio_def calculateIntersectionRatio_def)
  done

text \<open>
  C2: for a front-facing triangle with exactly one or exactly two vertices outside the
  near plane (\<open>z > -n\<close>), the clipper's new vertices are the points
  \<open>origin + r (target - origin)\<close> with \<open>r = (origin.z + n) / (origin.z - target.z)\<close> in
  all three coordinates (one outside vertex: the moved origin and the pushed fourth
  vertex; two: both moved origins), the inside vertices are unchanged, and every vertex
  of every triangle that the clipper forms from the clipped vertices has camera-space
  \<open>z \<le> -n\<close>.
\<close>

theorem near_plane_clipping:
  assumes front: "\<not> isBackFacingCameraViewSpace v1 v2 v3"
    and cat: "categorizeVertices [v1, v2, v3] (- n) = (outsideIndices, insideIndices)"
    and crossing: "length outsideIndices = 1 \<or> length outsideIndices = 2"
  shows "\<exists>vertices'.
       clipToNearPlane n [v1, v2, v3] outsideIndices insideIndices = Some vertices'
     \<and> clipTriangle n v1 v2 v3 = createTriangles vertices' outsideIndices insideIndices
     \<and> (length outsideIndices = 1 \<longrightarrow>
           length vertices' = 4
         \<and> xyz (vertices' ! (outsideIndices ! 0)) =
             specIntersection n ([v1, v2, v3] ! (outsideIndices ! 0)) ([v1, v2, v3] ! (insideIndices ! 0))
         \<and> xyz (vertices' ! 3) =
             specIntersection n ([v1, v2, v3] ! (outsideIndices ! 0)) ([v1, v2, v3] ! (insideIndices ! 1))
         \<and> vertices' ! (insideIndices ! 0) = [v1, v2, v3] ! (insideIndices ! 0)
         \<and> vertices' ! (insideIndices ! 1) = [v1, v2, v3] ! (insideIndices ! 1))
     \<and> (length outsideIndices = 2 \<longrightarrow>
           length vertices' = 3
         \<and> xyz (vertices' ! (outsideIndices ! 0)) =
             specIntersection n ([v1, v2, v3] ! (outsideIndices ! 0)) ([v1, v2, v3] ! (insideIndices ! 0))
         \<and> xyz (vertices' ! (outsideIndices ! 1)) =
             specIntersection n ([v1, v2, v3] ! (outsideIndices ! 1)) ([v1, v2, v3] ! (insideIndices ! 0))
         \<and> vertices' ! (insideIndices ! 0) = [v1, v2, v3] ! (insideIndices ! 0))
     \<and> (\<forall>t \<in> set (clipTriangle n v1 v2 v3). \<forall>v \<in> set (triangleVertices t). data2 v \<le> - n)"
proof -
  have zs: "\<forall>t \<in> set (clipTriangle n v1 v2 v3). \<forall>v \<in> set (triangleVertices t). data2 v \<le> - n"
    using clipTriangle_z by blast
  from crossing show ?thesis
  proof
    assume one: "length outsideIndices = 1"
    from clip_one_outside[OF cat one] obtain vertices' where
      v: "clipToNearPlane n [v1, v2, v3] outsideIndices insideIndices = Some vertices'"
      and rest: "length vertices' = 4
         \<and> xyz (vertices' ! (outsideIndices ! 0)) =
             specIntersection n ([v1, v2, v3] ! (outsideIndices ! 0)) ([v1, v2, v3] ! (insideIndices ! 0))
         \<and> xyz (vertices' ! 3) =
             specIntersection n ([v1, v2, v3] ! (outsideIndices ! 0)) ([v1, v2, v3] ! (insideIndices ! 1))
         \<and> vertices' ! (insideIndices ! 0) = [v1, v2, v3] ! (insideIndices ! 0)
         \<and> vertices' ! (insideIndices ! 1) = [v1, v2, v3] ! (insideIndices ! 1)"
      by blast
    have "clipTriangle n v1 v2 v3 = createTriangles vertices' outsideIndices insideIndices"
      using clipTriangle_front[OF front cat] v by simp
    with v rest zs one show ?thesis by (intro exI[of _ vertices']) simp
  next
    assume two: "length outsideIndices = 2"
    from clip_two_outside[OF cat two] obtain vertices' where
      v: "clipToNearPlane n [v1, v2, v3] outsideIndices insideIndices = Some vertices'"
      and rest: "length vertices' = 3
         \<and> xyz (vertices' ! (outsideIndices ! 0)) =
             specIntersection n ([v1, v2, v3] ! (outsideIndices ! 0)) ([v1, v2, v3] ! (insideIndices ! 0))
         \<and> xyz (vertices' ! (outsideIndices ! 1)) =
             specIntersection n ([v1, v2, v3] ! (outsideIndices ! 1)) ([v1, v2, v3] ! (insideIndices ! 0))
         \<and> vertices' ! (insideIndices ! 0) = [v1, v2, v3] ! (insideIndices ! 0)"
      by blast
    have "clipTriangle n v1 v2 v3 = createTriangles vertices' outsideIndices insideIndices"
      using clipTriangle_front[OF front cat] v by simp
    with v rest zs two show ?thesis by (intro exI[of _ vertices']) simp
  qed
qed

theorem near_plane_clipping_witness:
  "\<not> isBackFacingCameraViewSpace (Vector4 (- 1) (- 1) (- 2) 1) (Vector4 1 (- 1) (- 2) 1) (Vector4 0 1 (- (1 / 2)) 1)
   \<and> categorizeVertices [Vector4 (- 1) (- 1) (- 2) 1, Vector4 1 (- 1) (- 2) 1, Vector4 0 1 (- (1 / 2)) 1] (- 1)
        = ([2], [0, 1])
   \<and> length [2 :: nat] = 1
   \<and> list_all (\<lambda>t. list_all (\<lambda>v. data2 v \<le> - 1) (triangleVertices t))
        (clipTriangle 1 (Vector4 (- 1) (- 1) (- 2) 1) (Vector4 1 (- 1) (- 2) 1) (Vector4 0 1 (- (1 / 2)) 1))"
proof -
  have front: "\<not> isBackFacingCameraViewSpace (Vector4 (- 1) (- 1) (- 2) 1) (Vector4 1 (- 1) (- 2) 1) (Vector4 0 1 (- (1 / 2)) 1)"
    by (simp add: isBackFacingCameraViewSpace_def)
  have cat: "categorizeVertices [Vector4 (- 1) (- 1) (- 2) 1, Vector4 1 (- 1) (- 2) 1, Vector4 0 1 (- (1 / 2)) 1] (- 1)
        = ([2], [0, 1])"
    by (simp add: categorizeVertices_three)
  have crossing: "length [2 :: nat] = 1 \<or> length [2 :: nat] = 2" by simp
  from near_plane_clipping[OF front cat crossing] show ?thesis
    using front cat by (auto simp add: list_all_iff)
qed

section \<open>Occlusion culling of a candidate list (C4, C10)\<close>

lemma cullStep_cases:
  "\<exists>vs ps. visibleEntities (cullStep sm bm r cam st e) = visibleEntities st @ vs
         \<and> probed (cullStep sm bm r cam st e) = probed st @ ps
         \<and> (vs = [] \<or> vs = [e]) \<and> (neverCull e \<longrightarrow> vs = [e] \<and> ps = [])
         \<and> (ps = [] \<or> ps = [e])"
  by (cases "modelBound e") (auto simp: cullStep_def Let_def neverCull_def)

lemma cullLoop_shape:
  "\<exists>vs ps. visibleEntities (foldl (cullStep sm bm r cam) st es) = visibleEntities st @ vs
         \<and> probed (foldl (cullStep sm bm r cam) st es) = probed st @ ps
         \<and> subseq vs es \<and> filter neverCull vs = filter neverCull es
         \<and> list_all (\<lambda>e. \<not> neverCull e) ps"
proof (induction es arbitrary: st)
  case Nil
  then show ?case by simp
next
  case (Cons e es)
  obtain vs1 ps1 where s1: "visibleEntities (cullStep sm bm r cam st e) = visibleEntities st @ vs1"
    "probed (cullStep sm bm r cam st e) = probed st @ ps1"
    "vs1 = [] \<or> vs1 = [e]" "neverCull e \<longrightarrow> vs1 = [e] \<and> ps1 = []" "ps1 = [] \<or> ps1 = [e]"
    using cullStep_cases[of sm bm r cam st e] by blast
  obtain vs2 ps2 where s2:
    "visibleEntities (foldl (cullStep sm bm r cam) (cullStep sm bm r cam st e) es)
       = visibleEntities (cullStep sm bm r cam st e) @ vs2"
    "probed (foldl (cullStep sm bm r cam) (cullStep sm bm r cam st e) es)
       = probed (cullStep sm bm r cam st e) @ ps2"
    "subseq vs2 es" "filter neverCull vs2 = filter neverCull es" "list_all (\<lambda>e. \<not> neverCull e) ps2"
    using Cons.IH[of "cullStep sm bm r cam st e"] by blast
  have a: "subseq (vs1 @ vs2) (e # es)"
    using s1(3) s2(3) by auto
  have b: "filter neverCull (vs1 @ vs2) = filter neverCull (e # es)"
    using s1(3,4) s2(4) by auto
  have c: "list_all (\<lambda>e. \<not> neverCull e) (ps1 @ ps2)"
    using s1(4,5) s2(5) by auto
  show ?case
    apply (rule exI[of _ "vs1 @ vs2"], rule exI[of _ "ps1 @ ps2"])
    using s1(1,2) s2(1,2) a b c by simp
qed

text \<open>
  C4: \<open>performOcclusionCulling\<close> (on a renderer that has its camera) returns a list whose
  elements stand in the order of the input (a subsequence of it); every entity whose
  \<open>cullMode\<close> is \<open>'NeverOcclusionCull'\<close> is in the returned list, each occurrence of
  it, and no occlusion module is called for such an entity.
\<close>

theorem culling_order_and_never_cull:
  assumes "camera r = Some cam"
  shows "\<exists>st. performOcclusionCulling boundingSphereModule boundingBoxModule r renderList = Inr st
     \<and> subseq (visibleEntities st) renderList
     \<and> filter neverCull (visibleEntities st) = filter neverCull renderList
     \<and> (\<forall>entity \<in> set renderList. neverCull entity \<longrightarrow> entity \<in> set (visibleEntities st))
     \<and> list_all (\<lambda>entity. \<not> neverCull entity) (probed st)"
proof -
  let ?st = "foldl (cullStep boundingSphereModule boundingBoxModule r cam)
               \<lparr> cull = None, visibleEntities = [], probed = [] \<rparr> renderList"
  have res: "performOcclusionCulling boundingSphereModule boundingBoxModule r renderList = Inr ?st"
    using assms by (simp add: performOcclusionCulling_def)
  obtain vs ps where sh: "visibleEntities ?st = vs" "probed ?st = ps" "subseq vs renderList"
    "filter neverCull vs = filter neverCull renderList" "list_all (\<lambda>e. \<not> neverCull e) ps"
    using cullLoop_shape[of boundingSphereModule boundingBoxModule r cam
        "\<lparr> cull = None, visibleEntities = [], probed = [] \<rparr>" renderList] by auto
  have mem: "\<forall>entity \<in> set renderList. neverCull entity \<longrightarrow> entity \<in> set vs"
  proof (intro ballI impI)
    fix entity assume "entity \<in> set renderList" "neverCull entity"
    then have "entity \<in> set (filter neverCull renderList)" by simp
    then have "entity \<in> set (filter neverCull vs)" using sh(4) by simp
    then show "entity \<in> set vs" by simp
  qed
  show ?thesis using res sh mem by auto
qed

theorem culling_order_and_never_cull_witness:
  "camera exampleRenderer = Some exampleCamera
   \<and> neverCull exampleNeverCulled
   \<and> performOcclusionCulling sphereCullsAll boxCullsAll exampleRenderer
        [exampleBoxed, exampleNeverCulled, exampleBoxed]
      = Inr \<lparr> cull = Some True, visibleEntities = [exampleNeverCulled],
              probed = [exampleBoxed, exampleBoxed] \<rparr>
   \<and> subseq [exampleNeverCulled] [exampleBoxed, exampleNeverCulled, exampleBoxed]
   \<and> list_all (\<lambda>entity. \<not> neverCull entity) [exampleBoxed, exampleBoxed]"
proof -
  have cam: "camera exampleRenderer = Some exampleCamera"
    by (simp add: exampleRenderer_def)
  have run: "performOcclusionCulling sphereCullsAll boxCullsAll exampleRenderer
        [exampleBoxed, exampleNeverCulled, exampleBoxed]
      = Inr \<lparr> cull = Some True, visibleEntities = [exampleNeverCulled],
              probed = [exampleBoxed, exampleBoxed] \<rparr>"
    by (simp add: performOcclusionCulling_def cam cullStep_def exampleBoxed_def
        exampleNeverCulled_def boxCullsAll_def Let_def)
  have never: "neverCull exampleNeverCulled"
    by (simp add: neverCull_def exampleNeverCulled_def)
  from culling_order_and_never_cull[OF cam, of sphereCullsAll boxCullsAll
      "[exampleBoxed, exampleNeverCulled, exampleBoxed]"]
  obtain st where st:
    "performOcclusionCulling sphereCullsAll boxCullsAll exampleRenderer
       [exampleBoxed, exampleNeverCulled, exampleBoxed] = Inr st"
    "subseq (visibleEntities st) [exampleBoxed, exampleNeverCulled, exampleBoxed]"
    "list_all (\<lambda>entity. \<not> neverCull entity) (probed st)"
    by blast
  have eq: "st = \<lparr> cull = Some True, visibleEntities = [exampleNeverCulled],
              probed = [exampleBoxed, exampleBoxed] \<rparr>"
    using st(1) run by simp
  have sub: "subseq [exampleNeverCulled] [exampleBoxed, exampleNeverCulled, exampleBoxed]"
    using st(2) unfolding eq by simp
  have pr: "list_all (\<lambda>entity. \<not> neverCull entity) [exampleBoxed, exampleBoxed]"
    using st(3) unfolding eq by simp
  show ?thesis using cam never run sub pr by blast
qed

text \<open>
  C10: a candidate that is not flagged \<open>'NeverOcclusionCull'\<close> and whose bound is neither
  a sphere nor a box should be returned as visible. The code returns it when it is alone,
  but after a candidate that was culled the variable \<open>cull\<close> still holds \<open>true\<close>, and
  the candidate is left out although no module was called for it.
\<close>

theorem unsupported_bound_inherits_verdict:
  "performOcclusionCulling sphereCullsAll boxCullsAll exampleRenderer [exampleBoxed, exampleUnbounded]
     = Inr \<lparr> cull = Some True, visibleEntities = [], probed = [exampleBoxed] \<rparr>
   \<and> performOcclusionCulling sphereCullsAll boxCullsAll exampleRenderer [exampleUnbounded]
     = Inr \<lparr> cull = None, visibleEntities = [exampleUnbounded], probed = [] \<rparr>"
  by (simp add: performOcclusionCulling_def exampleRenderer_def cullStep_def exampleBoxed_def
      exampleUnbounded_def boxCullsAll_def Let_def)

section \<open>Construction (C6)\<close>

lemma initDepthClear_zero:
  "0 \<le> i \<Longrightarrow> length buf = nat numOfPixels \<Longrightarrow> \<forall>k < nat i. buf ! k = 0
   \<Longrightarrow> initDepthClear i numOfPixels buf = replicate (nat numOfPixels) 0"
proof (induction i numOfPixels buf rule: initDepthClear.induct)
  case (1 i numOfPixels buf)
  show ?case
  proof (cases "i < numOfPixels")
    case True
    have "\<forall>k < nat (i + 1). buf[nat i := 0] ! k = 0"
    proof (intro allI impI)
      fix k assume "k < nat (i + 1)"
      then have "k < nat i \<or> k = nat i" using "1.prems"(1) by linarith
      then show "buf[nat i := 0] ! k = 0"
        using "1.prems" True by (auto simp: nth_list_update)
    qed
    then have "initDepthClear (i + 1) numOfPixels (buf[nat i := 0]) = replicate (nat numOfPixels) 0"
      using "1.IH"[OF True] "1.prems" by simp
    then show ?thesis using True by (simp add: initDepthClear.simps[of i])
  next
    case False
    then have "nat numOfPixels \<le> nat i" by simp
    then have "\<forall>k < length buf. buf ! k = 0" using "1.prems" by simp
    then have "buf = replicate (nat numOfPixels) 0"
      using "1.prems"(2) by (simp add: list_eq_iff_nth_eq)
    then show ?thesis using False by (simp add: initDepthClear.simps[of i])
  qed
qed

lemma initDepthClear_fresh:
  "initDepthClear 0 numOfPixels (replicate (nat numOfPixels) 0) = replicate (nat numOfPixels) 0"
  by (rule initDepthClear_zero) simp_all

lemma frameBuffer_bytes: "w * h * 4 * 1 + w * h * 4 * 2 = 12 * (w * h)" for w h :: int
  by simp

lemma newSoftwareRenderer_eq:
  "newSoftwareRenderer rt w h cam =
     (if w * h < 0 \<or> 2 ^ 53 - 1 < 12 * (w * h) \<or> \<not> canAllocate rt (12 * (w * h))
      then Inl RangeError
      else case newBoundingBoxOcclusionModule rt (blankRenderer w h cam) of
             Some e \<Rightarrow> Inl e
           | None \<Rightarrow>
               (case newBoundingSphereOcclusionModule rt (blankRenderer w h cam) of
                  Some e \<Rightarrow> Inl e
                | None \<Rightarrow> Inr (blankRenderer w h cam)))"
proof -
  have m: "(12 * x < 0) = (x < 0)" for x :: int by simp
  show ?thesis
    unfolding newSoftwareRenderer_def Let_def frameBuffer_bytes initDepthClear_fresh
      blankRenderer_def m
    by (rule refl)
qed

lemma newSoftwareRenderer_Inr:
  assumes "newSoftwareRenderer rt w h cam = Inr r"
  shows "0 \<le> w * h \<and> r = blankRenderer w h cam"
  using assms unfolding newSoftwareRenderer_eq
  by (auto split: if_splits option.splits)



section \<open>Rendering only raises the depth buffer (C5, C7)\<close>

lemma sameConfig_refl: "sameConfig r r"
  by (simp add: sameConfig_def)

lemma sameConfig_trans: "sameConfig r r' \<Longrightarrow> sameConfig r' r'' \<Longrightarrow> sameConfig r r''"
  by (simp add: sameConfig_def)

lemma sameConfig_sym: "sameConfig r r' \<Longrightarrow> sameConfig r' r"
  by (simp add: sameConfig_def)

lemma depthLe_refl: "depthLe r r"
  by (simp add: depthLe_def sameConfig_refl list_all2_refl)

lemma depthLe_trans: "depthLe r r' \<Longrightarrow> depthLe r' r'' \<Longrightarrow> depthLe r r''"
proof -
  assume a: "depthLe r r'" and b: "depthLe r' r''"
  have t: "\<And>a b c :: real. a \<le> b \<Longrightarrow> b \<le> c \<Longrightarrow> a \<le> c" by simp
  have x: "list_all2 (\<le>) (depthData r) (depthData r')" using a by (simp add: depthLe_def)
  have y: "list_all2 (\<le>) (depthData r') (depthData r'')" using b by (simp add: depthLe_def)
  have "list_all2 (\<le>) (depthData r) (depthData r'')"
    by (rule list_all2_trans[OF t x y])
  moreover have "sameConfig r r''"
    using a b unfolding depthLe_def by (blast intro: sameConfig_trans)
  ultimately show ?thesis by (simp add: depthLe_def)
qed

lemma depthTestWrite_config: "sameConfig r (depthTestWrite index depth r)"
  by (simp add: depthTestWrite_def sameConfig_def Let_def split: option.splits)

lemma depthTestWrite_data:
  "depthData (depthTestWrite index depth r) =
     (if 0 \<le> index \<and> index < int (length (depthData r))
      then (depthData r)[nat index := max (depthData r ! nat index) depth]
      else depthData r)"
  by (auto simp: depthTestWrite_def readDepth_def Let_def max_def)

lemma update_max_above:
  fixes xs :: "real list"
  shows "list_all2 (\<le>) xs (xs[k := max (xs ! k) d])"
proof -
  have "xs ! i \<le> xs[k := max (xs ! k) d] ! i" if "i < length xs" for i
    using that by (cases "i = k") simp_all
  then show ?thesis by (simp add: list_all2_conv_all_nth)
qed

lemma update_max_mono:
  fixes xs ys :: "real list"
  assumes "list_all2 (\<le>) xs ys"
  shows "list_all2 (\<le>) (xs[k := max (xs ! k) d]) (ys[k := max (ys ! k) d])"
proof (cases "k < length xs")
  case True
  then have "xs ! k \<le> ys ! k" using assms by (simp add: list_all2_conv_all_nth)
  then have "max (xs ! k) d \<le> max (ys ! k) d" by (simp add: max.coboundedI1 max.coboundedI2)
  then show ?thesis using assms by (rule list_all2_update_cong[rotated])
next
  case False
  then have "\<not> k < length ys" using assms by (simp add: list_all2_lengthD)
  with False assms show ?thesis by (simp add: list_update_beyond)
qed

lemma depthTestWrite_above: "depthLe r (depthTestWrite index depth r)"
  unfolding depthLe_def
  by (simp add: depthTestWrite_config depthTestWrite_data update_max_above list_all2_refl)

lemma depthTestWrite_mono:
  assumes "depthLe r r'"
  shows "depthLe (depthTestWrite index depth r) (depthTestWrite index depth r')"
proof -
  have len: "length (depthData r) = length (depthData r')"
    using assms by (auto simp: depthLe_def dest: list_all2_lengthD)
  have cfg: "sameConfig (depthTestWrite index depth r) (depthTestWrite index depth r')"
    using assms depthTestWrite_config[of r index depth] depthTestWrite_config[of r' index depth]
    unfolding depthLe_def by (meson sameConfig_sym sameConfig_trans)
  show ?thesis
    unfolding depthLe_def using cfg assms len
    by (simp add: depthTestWrite_data depthLe_def update_max_mono)
qed

lemma fillLoop_above: "depthLe r (fillLoop i rightX index depth depthIncrement r)"
proof (induction i rightX index depth depthIncrement r rule: fillLoop.induct)
  case (1 i rightX index depth depthIncrement r)
  show ?case
  proof (cases "i \<le> rightX")
    case True
    then show ?thesis
      using "1.IH"[OF True] depthTestWrite_above[of r index depth]
      by (simp add: fillLoop.simps[of i] depthLe_trans)
  next
    case False
    then show ?thesis by (simp add: fillLoop.simps[of i] depthLe_refl)
  qed
qed

lemma fillLoop_mono:
  "depthLe r r' \<Longrightarrow>
   depthLe (fillLoop i rightX index depth depthIncrement r) (fillLoop i rightX index depth depthIncrement r')"
proof (induction i rightX index depth depthIncrement r arbitrary: r' rule: fillLoop.induct)
  case (1 i rightX index depth depthIncrement r)
  show ?case
  proof (cases "i \<le> rightX")
    case True
    then show ?thesis
      using "1.IH"[OF True depthTestWrite_mono[OF "1.prems"]]
      by (simp add: fillLoop.simps[of i])
  next
    case False
    then show ?thesis using "1.prems" by (simp add: fillLoop.simps[of i])
  qed
qed

lemma logDepth_config: "sameConfig r (logDepth label depth r)"
  by (simp add: logDepth_def sameConfig_def)

lemma logDepth_data: "depthData (logDepth label depth r) = depthData r"
  by (simp add: logDepth_def)

lemma logDepth_above: "depthLe r (logDepth label depth r)"
  by (simp add: depthLe_def logDepth_config logDepth_data list_all2_refl)

lemma logDepth_mono: "depthLe r r' \<Longrightarrow> depthLe (logDepth label depth r) (logDepth label depth r')"
  by (simp add: depthLe_def logDepth_def sameConfig_def)

lemma clipSpan_config: "sameConfig r r' \<Longrightarrow> clipSpan r = clipSpan r'"
  by (intro ext) (simp add: clipSpan_def sameConfig_def)

lemma fillPixels_unfold:
  "fillPixels leftX rightX y leftZ rightZ r =
     (if rightX < 0 \<or> leftX > clipX r \<or> rightX < leftX then r
      else (case clipSpan r leftX rightX leftZ rightZ of
              (leftX', rightX', leftZ', rightZ') \<Rightarrow>
                fillLoop leftX' rightX' (y * width r + leftX') leftZ'
                  ((rightZ' - leftZ') / real_of_int (rightX' - leftX'))
                  (logDepth ''rightZ : '' rightZ (logDepth ''leftz : '' leftZ r))))"
  by (simp add: fillPixels_def Let_def)

lemma fillPixels_above: "depthLe r (fillPixels leftX rightX y leftZ rightZ r)"
proof (cases "rightX < 0 \<or> leftX > clipX r \<or> rightX < leftX")
  case True
  then show ?thesis by (simp add: fillPixels_unfold depthLe_refl)
next
  case False
  obtain a b c d where sp: "clipSpan r leftX rightX leftZ rightZ = (a, b, c, d)"
    using prod_cases4 by blast
  have l: "depthLe r (logDepth ''rightZ : '' rightZ (logDepth ''leftz : '' leftZ r))"
    by (rule depthLe_trans[OF logDepth_above logDepth_above])
  have "depthLe r (fillLoop a b (y * width r + a) c ((d - c) / real_of_int (b - a))
                     (logDepth ''rightZ : '' rightZ (logDepth ''leftz : '' leftZ r)))"
    by (rule depthLe_trans[OF l fillLoop_above])
  then show ?thesis using False by (simp add: fillPixels_unfold sp)
qed

lemma fillPixels_mono:
  assumes "depthLe r r'"
  shows "depthLe (fillPixels leftX rightX y leftZ rightZ r) (fillPixels leftX rightX y leftZ rightZ r')"
proof -
  have cfg: "sameConfig r r'" using assms by (simp add: depthLe_def)
  then have c: "clipX r' = clipX r" "width r' = width r" "clipSpan r' = clipSpan r"
    using clipSpan_config[OF cfg] by (simp_all add: sameConfig_def)
  show ?thesis
  proof (cases "rightX < 0 \<or> leftX > clipX r \<or> rightX < leftX")
    case True
    then show ?thesis using assms by (simp add: fillPixels_unfold c)
  next
    case False
    obtain a b c' d where sp: "clipSpan r leftX rightX leftZ rightZ = (a, b, c', d)"
      using prod_cases4 by blast
    have l: "depthLe (logDepth ''rightZ : '' rightZ (logDepth ''leftz : '' leftZ r))
                     (logDepth ''rightZ : '' rightZ (logDepth ''leftz : '' leftZ r'))"
      by (intro logDepth_mono assms)
    show ?thesis using False fillLoop_mono[OF l] by (simp add: fillPixels_unfold c sp)
  qed
qed

lemma drawLoop_above: "depthLe r (drawLoop orientationData y stopLine' edgeData r)"
proof (induction orientationData y stopLine' edgeData r rule: drawLoop.induct)
  case (1 orientationData y stopLine' edgeData r)
  show ?case
  proof (cases "y \<le> stopLine'")
    case True
    obtain leftX rightX leftZ rightZ where sp: "occluderSpan orientationData edgeData = (leftX, rightX, leftZ, rightZ)"
      using prod_cases4 by blast
    show ?thesis
      using "1.IH"[OF True sp[symmetric] refl refl refl] fillPixels_above[of r leftX rightX y leftZ rightZ]
      by (simp add: drawLoop.simps[of _ y] True sp depthLe_trans)
  next
    case False
    then show ?thesis by (simp add: drawLoop.simps[of _ y] depthLe_refl)
  qed
qed

lemma drawLoop_mono:
  "depthLe r r' \<Longrightarrow>
   depthLe (drawLoop orientationData y stopLine' edgeData r) (drawLoop orientationData y stopLine' edgeData r')"
proof (induction orientationData y stopLine' edgeData r arbitrary: r' rule: drawLoop.induct)
  case (1 orientationData y stopLine' edgeData r)
  show ?case
  proof (cases "y \<le> stopLine'")
    case True
    obtain leftX rightX leftZ rightZ where sp: "occluderSpan orientationData edgeData = (leftX, rightX, leftZ, rightZ)"
      using prod_cases4 by blast
    show ?thesis
      using "1.IH"[OF True sp[symmetric] refl refl refl fillPixels_mono[OF "1.prems"]]
      by (simp add: drawLoop.simps[of _ y] True sp)
  next
    case False
    then show ?thesis using "1.prems" by (simp add: drawLoop.simps[of _ y])
  qed
qed

lemma depthLe_config: "depthLe r r' \<Longrightarrow> sameConfig r r'"
  by (simp add: depthLe_def)

lemma drawEdges_above: "depthLe r (drawEdges edgeData orientationData r)"
  by (simp add: drawEdges_def drawLoop_above)

lemma drawEdges_mono:
  "depthLe r r' \<Longrightarrow> depthLe (drawEdges edgeData orientationData r) (drawEdges edgeData orientationData r')"
  by (simp add: drawEdges_def drawLoop_mono)

lemma edgePreRenderProcess_config:
  assumes "sameConfig r r'"
  shows "edgePreRenderProcess r' = edgePreRenderProcess r"
proof -
  have h: "clipY r' = clipY r" using assms by (simp add: sameConfig_def)
  show ?thesis unfolding edgePreRenderProcess_def h by (rule refl)
qed

lemma verticalLongEdgeCull_config:
  "sameConfig r r' \<Longrightarrow> verticalLongEdgeCull r' = verticalLongEdgeCull r"
  by (intro ext) (simp add: verticalLongEdgeCull_def sameConfig_def)

lemma horizontalLongEdgeCull_config:
  "sameConfig r r' \<Longrightarrow> horizontalLongEdgeCull r' = horizontalLongEdgeCull r"
  by (intro ext) (simp add: horizontalLongEdgeCull_def sameConfig_def)

lemma edgePreRenderProcess_drawEdges:
  "edgePreRenderProcess (drawEdges edgeData orientationData r) = edgePreRenderProcess r"
  by (rule edgePreRenderProcess_config[OF depthLe_config[OF drawEdges_above]])

lemma renderTriangle_above: "depthLe r (renderTriangle r triangle)"
  unfolding renderTriangle_def Let_def edgePreRenderProcess_drawEdges
  by (auto split: prod.splits option.splits
      intro: depthLe_refl drawEdges_above depthLe_trans[OF drawEdges_above drawEdges_above])

lemma renderTriangle_mono:
  assumes "depthLe r r'"
  shows "depthLe (renderTriangle r triangle) (renderTriangle r' triangle)"
proof -
  have cfg: "sameConfig r r'" using assms by (rule depthLe_config)
  note c = edgePreRenderProcess_config[OF cfg] verticalLongEdgeCull_config[OF cfg]
    horizontalLongEdgeCull_config[OF cfg]
  show ?thesis
    unfolding renderTriangle_def Let_def edgePreRenderProcess_drawEdges c
    by (auto split: prod.splits option.splits intro: assms drawEdges_mono)
qed

lemma renderTriangles_above: "depthLe r (foldl renderTriangle r triangles)"
proof (induction triangles arbitrary: r)
  case Nil
  show ?case by (simp add: depthLe_refl)
next
  case (Cons t ts)
  show ?case using depthLe_trans[OF renderTriangle_above Cons.IH] by simp
qed

lemma renderTriangles_mono:
  "depthLe r r' \<Longrightarrow> depthLe (foldl renderTriangle r triangles) (foldl renderTriangle r' triangles)"
proof (induction triangles arbitrary: r r')
  case Nil
  then show ?case by simp
next
  case (Cons t ts)
  show ?case using Cons.IH[OF renderTriangle_mono[OF Cons.prems]] by simp
qed

lemma transformToScreenSpace_config:
  "sameConfig r r' \<Longrightarrow> transformToScreenSpace r' = transformToScreenSpace r"
  by (intro ext) (simp add: transformToScreenSpace_def sameConfig_def)

lemma createTrianglesForVertices_config:
  assumes "sameConfig r r'"
  shows "createTrianglesForVertices r' = createTrianglesForVertices r"
  unfolding createTrianglesForVertices_def transformToScreenSpace_config[OF assms] by (rule refl)

lemma trianglesForIndices_config:
  "sameConfig r r' \<Longrightarrow>
   trianglesForIndices r' cam p posArray indices = trianglesForIndices r cam p posArray indices"
proof (induction r cam p posArray indices rule: trianglesForIndices.induct)
  case (1 r cam p posArray i1 i2 i3 rest)
  note v = createTrianglesForVertices_config[OF "1.prems"]
  show ?case
  proof (cases "vertexAt posArray i1")
    case None
    then show ?thesis by simp
  next
    case a: (Some v1)
    show ?thesis
    proof (cases "vertexAt posArray i2")
      case None
      then show ?thesis using a by simp
    next
      case b: (Some v2)
      show ?thesis
      proof (cases "vertexAt posArray i3")
        case None
        then show ?thesis using a b by simp
      next
        case c: (Some v3)
        have "trianglesForIndices r' cam p posArray rest = trianglesForIndices r cam p posArray rest"
          using "1.IH"[of "vertexAt posArray i1" "(vertexAt posArray i2, vertexAt posArray i3)" v1
              "vertexAt posArray i2" "vertexAt posArray i3" v2 v3] "1.prems" a b c by simp
        then show ?thesis using a b c by (simp add: v cong: sum.case_cong)
      qed
    qed
  qed
qed simp_all

lemma createTrianglesForEntity_config:
  assumes "sameConfig r r'"
  shows "createTrianglesForEntity r' = createTrianglesForEntity r"
proof -
  have h: "camera r' = camera r" using assms by (simp add: sameConfig_def)
  show ?thesis
    unfolding createTrianglesForEntity_def h trianglesForIndices_config[OF assms] by (rule refl)
qed

lemma renderLoop_above: "depthLe r (fst (renderLoop r v p entities))"
proof (induction entities arbitrary: r)
  case Nil
  show ?case by (simp add: depthLe_refl)
next
  case (Cons e es)
  show ?case
  proof (cases "createTrianglesForEntity r e v p")
    case (Inl err)
    then show ?thesis by (simp add: depthLe_refl)
  next
    case (Inr ts)
    then show ?thesis
      using depthLe_trans[OF renderTriangles_above Cons.IH] by simp
  qed
qed

lemma renderLoop_subseq:
  assumes "subseq A B" and "depthLe ra rb" and "snd (renderLoop rb v p B) = None"
  shows "snd (renderLoop ra v p A) = None
       \<and> depthLe (fst (renderLoop ra v p A)) (fst (renderLoop rb v p B))"
  using assms
proof (induction A B arbitrary: ra rb rule: list_emb.induct)
  case (list_emb_Nil ys)
  have "depthLe ra (fst (renderLoop rb v p ys))"
    by (rule depthLe_trans[OF list_emb_Nil.prems(1) renderLoop_above])
  then show ?case by simp
next
  case (list_emb_Cons xs ys y)
  from list_emb_Cons.prems(2) obtain ts where ts: "createTrianglesForEntity rb y v p = Inr ts"
    by (cases "createTrianglesForEntity rb y v p") simp_all
  have le: "depthLe ra (foldl renderTriangle rb ts)"
    by (rule depthLe_trans[OF list_emb_Cons.prems(1) renderTriangles_above])
  have "snd (renderLoop (foldl renderTriangle rb ts) v p ys) = None"
    using list_emb_Cons.prems(2) ts by simp
  from list_emb_Cons.IH[OF le this] show ?case using ts by simp
next
  case (list_emb_Cons2 x y xs ys)
  from list_emb_Cons2.prems(2) obtain ts where ts: "createTrianglesForEntity rb y v p = Inr ts"
    by (cases "createTrianglesForEntity rb y v p") simp_all
  have tsa: "createTrianglesForEntity ra x v p = Inr ts"
    using ts list_emb_Cons2.hyps(1)
      createTrianglesForEntity_config[OF depthLe_config[OF list_emb_Cons2.prems(1)]] by simp
  have le: "depthLe (foldl renderTriangle ra ts) (foldl renderTriangle rb ts)"
    by (rule renderTriangles_mono[OF list_emb_Cons2.prems(1)])
  have "snd (renderLoop (foldl renderTriangle rb ts) v p ys) = None"
    using list_emb_Cons2.prems(2) ts by simp
  from list_emb_Cons2.IH[OF le this] show ?case using ts tsa by simp
qed

lemma clearDepthData_config: "sameConfig r (clearDepthData r)"
  by (simp add: clearDepthData_def sameConfig_def)

lemma render_config: "sameConfig r (fst (render r renderList))"
proof (cases "camera r")
  case None
  then show ?thesis by (simp add: render_def clearDepthData_def sameConfig_def)
next
  case (Some cam)
  have "sameConfig (clearDepthData r) (fst (renderLoop (clearDepthData r) (viewMatrix cam) (projectionMatrix cam) renderList))"
    by (rule depthLe_config[OF renderLoop_above])
  then have "sameConfig r (fst (renderLoop (clearDepthData r) (viewMatrix cam) (projectionMatrix cam) renderList))"
    by (rule sameConfig_trans[OF clearDepthData_config])
  moreover have "camera (clearDepthData r) = Some cam" using Some by (simp add: clearDepthData_def)
  ultimately show ?thesis by (simp add: render_def Let_def)
qed

text \<open>
  C5: for a fixed renderer (and camera) and occluder lists \<open>A\<close>, \<open>B\<close> with \<open>A\<close> a
  sublist of \<open>B\<close>, if \<open>render(B)\<close> runs to its end then so does \<open>render(A)\<close>, and
  every cell of the depth buffer after \<open>render(B)\<close> is at least the cell after
  \<open>render(A)\<close>.
\<close>

theorem render_monotone:
  assumes "subseq A B" and "snd (render r B) = None"
  shows "snd (render r A) = None
       \<and> list_all2 (\<le>) (depthData (fst (render r A))) (depthData (fst (render r B)))"
proof (cases "camera r")
  case None
  then show ?thesis using assms(2) by (simp add: render_def clearDepthData_def)
next
  case (Some cam)
  have b: "snd (renderLoop (clearDepthData r) (viewMatrix cam) (projectionMatrix cam) B) = None"
    using assms(2) Some by (simp add: render_def clearDepthData_def)
  from renderLoop_subseq[OF assms(1) depthLe_refl b]
  show ?thesis using Some by (simp add: render_def clearDepthData_def depthLe_def)
qed

lemma transformPositions_complete:
  "length ps mod 3 = 0 \<Longrightarrow>
   \<exists>posArray. transformPositions m ps = Inr posArray \<and> length posArray = length ps"
proof (induction m ps rule: transformPositions.induct)
  case (1 m px py pz rest)
  have "length (px # py # pz # rest) = length rest + 3" by simp
  then have "length rest mod 3 = 0" using "1.prems" by presburger
  from "1.IH"[OF refl this] obtain posArray where
    "transformPositions m rest = Inr posArray" "length posArray = length rest"
    by (elim exE conjE)
  then show ?case by (simp add: Let_def)
qed simp_all

lemma trianglesForIndices_complete:
  "length indices mod 3 = 0 \<Longrightarrow> list_all (\<lambda>i. i * 3 + 2 < length posArray) indices \<Longrightarrow>
   \<exists>triangles. trianglesForIndices r cam p posArray indices = Inr triangles"
proof (induction r cam p posArray indices rule: trianglesForIndices.induct)
  case (1 r cam p posArray i1 i2 i3 rest)
  obtain v1 v2 v3 where v: "vertexAt posArray i1 = Some v1" "vertexAt posArray i2 = Some v2"
    "vertexAt posArray i3 = Some v3"
    using "1.prems"(2) by (simp add: vertexAt_def Let_def)
  have "length (i1 # i2 # i3 # rest) = length rest + 3" by simp
  then have "length rest mod 3 = 0" using "1.prems"(1) by presburger
  moreover have "list_all (\<lambda>i. i * 3 + 2 < length posArray) rest"
    using "1.prems"(2) by simp
  ultimately have "length rest mod 3 = 0" "list_all (\<lambda>i. i * 3 + 2 < length posArray) rest"
    by simp_all
  with "1.IH"[of "vertexAt posArray i1" "(vertexAt posArray i2, vertexAt posArray i3)" v1
      "vertexAt posArray i2" "vertexAt posArray i3" v2 v3] v
  obtain triangles where "trianglesForIndices r cam p posArray rest = Inr triangles" by auto
  then show ?case using v by simp
qed simp_all

lemma createTrianglesForEntity_complete:
  assumes "camera r = Some cam" and "wellFormedMesh entity"
  shows "\<exists>triangles. createTrianglesForEntity r entity v p = Inr triangles"
proof -
  obtain posArray where pa: "transformPositions (combine v (worldTransform entity)) (positions entity) = Inr posArray"
    "length posArray = length (positions entity)"
  proof -
    have "length (positions entity) mod 3 = 0" using assms(2) by (simp add: wellFormedMesh_def)
    from transformPositions_complete[OF this, of "combine v (worldTransform entity)"] that
    show ?thesis by blast
  qed
  have "\<exists>triangles. trianglesForIndices r cam p posArray (indexData entity) = Inr triangles"
    using assms(2) pa(2) unfolding wellFormedMesh_def by (intro trianglesForIndices_complete) simp_all
  then show ?thesis using assms(1) pa(1) by (simp add: createTrianglesForEntity_def Let_def)
qed

lemma renderLoop_complete:
  "camera r = Some cam \<Longrightarrow> list_all wellFormedMesh entities \<Longrightarrow> snd (renderLoop r v p entities) = None"
proof (induction entities arbitrary: r)
  case Nil
  then show ?case by simp
next
  case (Cons e es)
  obtain ts where ts: "createTrianglesForEntity r e v p = Inr ts"
  proof -
    have "wellFormedMesh e" using Cons.prems(2) by simp
    from createTrianglesForEntity_complete[OF Cons.prems(1) this, of v p] that
    show ?thesis by blast
  qed
  have "camera (foldl renderTriangle r ts) = Some cam"
    using depthLe_config[OF renderTriangles_above[of r ts]] Cons.prems(1) by (simp add: sameConfig_def)
  then show ?case using Cons.IH Cons.prems(2) ts by simp
qed

lemma render_complete:
  assumes "camera r = Some cam" and "list_all wellFormedMesh renderList"
  shows "snd (render r renderList) = None"
  using assms renderLoop_complete[of "clearDepthData r" cam renderList]
  by (simp add: render_def clearDepthData_def)

lemma renders_config: "sameConfig r (foldl (\<lambda>r renderList. fst (render r renderList)) r renderLists)"
proof (induction renderLists arbitrary: r)
  case Nil
  show ?case by (simp add: sameConfig_refl)
next
  case (Cons l ls)
  show ?case using sameConfig_trans[OF render_config Cons.IH] by simp
qed

lemma render_empty: "depthData (fst (render r [])) = depthClear r"
  by (cases "camera r") (simp_all add: render_def clearDepthData_def)

theorem render_monotone_witness:
  "subseq [exampleOccluder] [exampleNearOccluder, exampleOccluder]
   \<and> snd (render exampleRenderer [exampleNearOccluder, exampleOccluder]) = None
   \<and> snd (render exampleRenderer [exampleOccluder]) = None
   \<and> list_all2 (\<le>) (depthData (fst (render exampleRenderer [exampleOccluder])))
        (depthData (fst (render exampleRenderer [exampleNearOccluder, exampleOccluder])))"
proof -
  have s: "subseq [exampleOccluder] [exampleNearOccluder, exampleOccluder]" by simp
  have c: "camera exampleRenderer = Some exampleCamera" by (simp add: exampleRenderer_def)
  have w: "list_all wellFormedMesh [exampleNearOccluder, exampleOccluder]"
    by (simp add: wellFormedMesh_def exampleNearOccluder_def exampleOccluder_def)
  have b: "snd (render exampleRenderer [exampleNearOccluder, exampleOccluder]) = None"
    by (rule render_complete[OF c w])
  from render_monotone[OF s b] s b show ?thesis by simp
qed

text \<open>
  C7: on a renderer that the constructor returned, after any sequence of \<open>render\<close>
  calls, \<open>render([])\<close> leaves every cell of the depth buffer at 0 (also when the camera
  is missing and the call ends in TypeError: the buffer is cleared first).
\<close>

theorem render_empty_clears:
  assumes "newSoftwareRenderer rt w h cam = Inr r0"
  shows "depthData (fst (render (foldl (\<lambda>r renderList. fst (render r renderList)) r0 renderLists) []))
         = replicate (nat (w * h)) 0"
proof -
  have "depthClear r0 = replicate (nat (w * h)) 0"
    using newSoftwareRenderer_Inr[OF assms] by (simp add: blankRenderer_def)
  moreover have "depthClear (foldl (\<lambda>r renderList. fst (render r renderList)) r0 renderLists) = depthClear r0"
    using renders_config[of r0 renderLists] by (simp add: sameConfig_def)
  ultimately show ?thesis by (simp add: render_empty)
qed

theorem render_empty_clears_witness:
  "newSoftwareRenderer exampleRuntime 4 2 (Some exampleCamera) = Inr exampleRenderer
   \<and> depthData (fst (render (fst (render exampleRenderer [exampleOccluder])) [])) = replicate 8 0"
proof -
  have h: "newSoftwareRenderer exampleRuntime 4 2 (Some exampleCamera) = Inr exampleRenderer"
    by (simp add: newSoftwareRenderer_eq exampleRenderer_def exampleRuntime_def blankRenderer_def)
  from render_empty_clears[OF h, of "[[exampleOccluder]]"] h show ?thesis by simp
qed

section \<open>Depth-buffer accesses stay in bounds (C8, C9)\<close>

lemma inBounds_step:
  "sameConfig r r' \<Longrightarrow> length (depthData r') = length (depthData r) \<Longrightarrow> inBounds r' = inBounds r"
  by (intro ext) (simp add: inBounds_def sameConfig_def)

lemma boundedStep_refl: "boundedStep r r"
  by (simp add: boundedStep_def sameConfig_refl accessesWithin_def newAccesses_def)

lemma accessesWithin_append:
  "accessesWithin r r' \<longleftrightarrow> (\<exists>new. accessed r' = accessed r @ new \<and> list_all (inBounds r) new)"
proof
  assume a: "accessesWithin r r'"
  then have "accessed r' = accessed r @ newAccesses r r'"
    unfolding accessesWithin_def newAccesses_def by (metis append_take_drop_id)
  then show "\<exists>new. accessed r' = accessed r @ new \<and> list_all (inBounds r) new"
    using a unfolding accessesWithin_def by blast
next
  assume "\<exists>new. accessed r' = accessed r @ new \<and> list_all (inBounds r) new"
  then show "accessesWithin r r'"
    by (auto simp: accessesWithin_def newAccesses_def)
qed

lemma newAccesses_trans:
  assumes "accessesWithin r r'" and "accessesWithin r' r''"
  shows "newAccesses r r'' = newAccesses r r' @ newAccesses r' r''"
proof -
  obtain n1 where n1: "accessed r' = accessed r @ n1" using assms(1) accessesWithin_append by blast
  obtain n2 where n2: "accessed r'' = accessed r' @ n2" using assms(2) accessesWithin_append by blast
  show ?thesis by (simp add: newAccesses_def n1 n2)
qed

lemma boundedStep_trans:
  assumes "boundedStep r r'" and "boundedStep r' r''"
  shows "boundedStep r r''"
proof -
  have c: "sameConfig r r'" "sameConfig r' r''" using assms by (simp_all add: boundedStep_def)
  have l: "length (depthData r') = length (depthData r)" using assms by (simp add: boundedStep_def)
  have ib: "inBounds r' = inBounds r" by (rule inBounds_step[OF c(1) l])
  have a1: "accessesWithin r r'" and a2: "accessesWithin r' r''"
    using assms by (simp_all add: boundedStep_def)
  have "take (length (accessed r)) (accessed r'') = accessed r"
    using a1 a2 unfolding accessesWithin_append by auto
  moreover have "list_all (inBounds r) (newAccesses r r'')"
    using a1 a2 unfolding newAccesses_trans[OF a1 a2] accessesWithin_def ib by simp
  ultimately have "accessesWithin r r''" by (simp add: accessesWithin_def)
  then show ?thesis
    using assms sameConfig_trans[OF c] by (simp add: boundedStep_def)
qed

lemma wellFormed_step: "wellFormed r \<Longrightarrow> boundedStep r r' \<Longrightarrow> wellFormed r'"
  by (simp add: wellFormed_def boundedStep_def sameConfig_def)

lemma boundedStep_config: "boundedStep r r' \<Longrightarrow> sameConfig r r'"
  by (simp add: boundedStep_def)

lemma pixel_index_bound:
  fixes x y w h :: int
  assumes "0 \<le> y" "y \<le> h - 1" "0 \<le> x" "x \<le> w - 1"
  shows "0 \<le> y * w + x \<and> y * w + x < w * h"
proof -
  have w: "0 \<le> w" using assms by linarith
  have "0 \<le> y * w" using assms(1) w by simp
  moreover have "(y + 1) * w \<le> h * w"
    using assms(2) w by (intro mult_right_mono) simp_all
  then have "y * w + w \<le> w * h" by (simp add: algebra_simps)
  ultimately show ?thesis using assms by linarith
qed

lemma depthTestWrite_step:
  assumes "inBounds r index"
  shows "boundedStep r (depthTestWrite index depth r)"
  using assms
  by (auto simp: boundedStep_def depthTestWrite_def sameConfig_def accessesWithin_def newAccesses_def
      Let_def split: option.splits)


lemma fillLoop_step:
  "(i \<le> rightX \<longrightarrow> inBounds r index \<and> inBounds r (index + (rightX - i))) \<Longrightarrow>
   boundedStep r (fillLoop i rightX index depth depthIncrement r)"
proof (induction i rightX index depth depthIncrement r rule: fillLoop.induct)
  case (1 i rightX index depth depthIncrement r)
  show ?case
  proof (cases "i \<le> rightX")
    case True
    let ?r' = "depthTestWrite index depth r"
    have s: "boundedStep r ?r'" using "1.prems" True by (simp add: depthTestWrite_step)
    have ib: "inBounds ?r' = inBounds r"
      using s by (intro inBounds_step) (simp_all add: boundedStep_def)
    have "i + 1 \<le> rightX \<longrightarrow> inBounds ?r' (index + 1) \<and> inBounds ?r' (index + 1 + (rightX - (i + 1)))"
      using "1.prems" True unfolding ib by (auto simp: inBounds_def)
    from "1.IH"[OF True this] s show ?thesis
      using True by (simp add: fillLoop.simps[of i] boundedStep_trans)
  next
    case False
    then show ?thesis by (simp add: fillLoop.simps[of i] boundedStep_refl)
  qed
qed


lemma logDepth_step: "boundedStep r (logDepth label depth r)"
  by (simp add: boundedStep_def logDepth_def sameConfig_def accessesWithin_def newAccesses_def)

lemma clipSpan_bounds:
  assumes "\<not> (rightX < 0 \<or> leftX > clipX r \<or> rightX < leftX)"
    and "clipSpan r leftX rightX leftZ rightZ = (leftX', rightX', leftZ', rightZ')"
  shows "leftX' = max 0 leftX \<and> rightX' = min rightX (clipX r)"
  using assms by (auto simp: clipSpan_def Let_def split: if_splits)

lemma span_in_bounds:
  assumes wf: "wellFormed r" and y: "0 \<le> y" "y \<le> clipY r"
    and x: "0 \<le> a" "a \<le> b" "b \<le> clipX r"
  shows "inBounds r (y * width r + a) \<and> inBounds r (y * width r + a + (b - a))"
proof -
  have h: "y \<le> height r - 1" and w: "b \<le> width r - 1" "a \<le> width r - 1"
    using wf y x by (simp_all add: wellFormed_def)
  have len: "int (length (depthData r)) = width r * height r"
  proof -
    have "0 \<le> width r * height r"
      using pixel_index_bound[OF y(1) h x(1) w(2)] by linarith
    then show ?thesis using wf by (simp add: wellFormed_def)
  qed
  have "0 \<le> y * width r + a \<and> y * width r + a < width r * height r"
    by (rule pixel_index_bound[OF y(1) h x(1) w(2)])
  moreover have "0 \<le> y * width r + b \<and> y * width r + b < width r * height r"
    using x by (intro pixel_index_bound[OF y(1) h _ w(1)]) simp
  ultimately show ?thesis by (simp add: inBounds_def len)
qed

lemma logged_twice_step:
  "boundedStep r (logDepth l2 d2 (logDepth l1 d1 r))"
  by (rule boundedStep_trans[OF logDepth_step logDepth_step])

lemma fillPixels_step:
  assumes wf: "wellFormed r" and y: "0 \<le> y" "y \<le> clipY r"
  shows "boundedStep r (fillPixels leftX rightX y leftZ rightZ r)"
proof (cases "rightX < 0 \<or> leftX > clipX r \<or> rightX < leftX")
  case True
  then show ?thesis by (simp add: fillPixels_unfold boundedStep_refl)
next
  case False
  obtain a b c d where sp: "clipSpan r leftX rightX leftZ rightZ = (a, b, c, d)"
    using prod_cases4 by blast
  have ab: "a = max 0 leftX \<and> b = min rightX (clipX r)"
    by (rule clipSpan_bounds[OF False sp])
  let ?r2 = "logDepth ''rightZ : '' rightZ (logDepth ''leftz : '' leftZ r)"
  have s2: "boundedStep r ?r2" by (rule logged_twice_step)
  have wf2: "wellFormed ?r2" by (rule wellFormed_step[OF wf s2])
  have cfg: "width ?r2 = width r" "clipX ?r2 = clipX r" "clipY ?r2 = clipY r"
    using boundedStep_config[OF s2] by (simp_all add: sameConfig_def)
  have "a \<le> b \<longrightarrow> inBounds ?r2 (y * width r + a) \<and> inBounds ?r2 (y * width r + a + (b - a))"
  proof
    assume "a \<le> b"
    then show "inBounds ?r2 (y * width r + a) \<and> inBounds ?r2 (y * width r + a + (b - a))"
      using span_in_bounds[OF wf2, of y a b] y ab cfg by simp
  qed
  then have "boundedStep ?r2 (fillLoop a b (y * width r + a) c ((d - c) / real_of_int (b - a)) ?r2)"
    by (rule fillLoop_step)
  then show ?thesis
    using False boundedStep_trans[OF s2] by (simp add: fillPixels_unfold sp)
qed

lemma drawLoop_step:
  "wellFormed r \<Longrightarrow> 0 \<le> y \<Longrightarrow> stopLine' \<le> clipY r \<Longrightarrow>
   boundedStep r (drawLoop orientationData y stopLine' edgeData r)"
proof (induction orientationData y stopLine' edgeData r rule: drawLoop.induct)
  case (1 orientationData y stopLine' edgeData r)
  show ?case
  proof (cases "y \<le> stopLine'")
    case True
    obtain leftX rightX leftZ rightZ where
      sp: "occluderSpan orientationData edgeData = (leftX, rightX, leftZ, rightZ)"
      using prod_cases4 by blast
    let ?r' = "fillPixels leftX rightX y leftZ rightZ r"
    have s: "boundedStep r ?r'"
      using "1.prems" True by (intro fillPixels_step) simp_all
    have wf': "wellFormed ?r'" by (rule wellFormed_step[OF "1.prems"(1) s])
    have "clipY ?r' = clipY r" using boundedStep_config[OF s] by (simp add: sameConfig_def)
    then have "boundedStep ?r' (drawLoop orientationData (y + 1) stopLine'
                                 (updateEdgeDataToNextLine edgeData) ?r')"
      using "1.IH"[OF True sp[symmetric] refl refl refl wf'] "1.prems" by simp
    then show ?thesis
      using boundedStep_trans[OF s] True by (simp add: drawLoop.simps[of _ y] sp)
  next
    case False
    then show ?thesis by (simp add: drawLoop.simps[of _ y] boundedStep_refl)
  qed
qed

lemma edgePreRenderProcess_lines:
  assumes "edgePreRenderProcess r longEdge shortEdge = Some edgeData"
  shows "0 \<le> startLine edgeData \<and> stopLine edgeData \<le> clipY r"
  using assms
  by (auto simp: edgePreRenderProcess_def Let_def split: if_splits)

lemma drawEdges_step:
  assumes "wellFormed r" and "edgePreRenderProcess r longEdge shortEdge = Some edgeData"
  shows "boundedStep r (drawEdges edgeData orientationData r)"
  unfolding drawEdges_def
  using edgePreRenderProcess_lines[OF assms(2)] by (intro drawLoop_step assms(1)) simp_all

lemma second_pass_step:
  assumes wf: "wellFormed r"
    and e1: "edgePreRenderProcess r longEdge shortEdge = Some edgeData"
    and e2: "edgePreRenderProcess (drawEdges edgeData orientationData r) longEdge shortEdge' = Some edgeData'"
  shows "boundedStep r (drawEdges edgeData' orientationData (drawEdges edgeData orientationData r))"
proof -
  have s1: "boundedStep r (drawEdges edgeData orientationData r)"
    by (rule drawEdges_step[OF wf e1])
  have wf1: "wellFormed (drawEdges edgeData orientationData r)"
    by (rule wellFormed_step[OF wf s1])
  show ?thesis by (rule boundedStep_trans[OF s1 drawEdges_step[OF wf1 e2]])
qed

lemma renderTriangle_step:
  assumes "wellFormed r"
  shows "boundedStep r (renderTriangle r triangle)"
  using assms
  by (auto simp: renderTriangle_def Let_def boundedStep_refl drawEdges_step second_pass_step
      split: prod.splits option.splits)

lemma probeStep_Inr:
  "probeStep r (Inr (occluded, r')) \<longleftrightarrow>
     boundedStep r r' \<and> depthData r' = depthData r
     \<and> (occluded \<or> newAccesses r r' \<noteq> [])"
  by (simp add: probeStep_def)

lemma probeStep_refl: "probeStep r (Inr (True, r))"
  by (simp add: probeStep_Inr boundedStep_refl)

lemma probeStep_trans:
  assumes "probeStep r (Inr (True, r'))" and "probeStep r' outcome"
  shows "probeStep r outcome"
proof (cases outcome)
  case (Inl e)
  then show ?thesis using assms(2) by (simp add: probeStep_def)
next
  case (Inr p)
  obtain v r'' where p: "p = (v, r'')" by (cases p)
  have s1: "boundedStep r r'" and s2: "boundedStep r' r''"
    using assms Inr p by (simp_all add: probeStep_Inr)
  have n: "newAccesses r r'' = newAccesses r r' @ newAccesses r' r''"
    using s1 s2 by (intro newAccesses_trans) (simp_all add: boundedStep_def)
  show ?thesis
    using assms Inr p boundedStep_trans[OF s1 s2] by (auto simp: probeStep_Inr n)
qed

lemma probePixel_unfold:
  assumes "0 \<le> index" and "index * 4 + 3 \<le> int (length (colorData r))"
  shows "probePixel index depth r =
     Inr (case readDepth r index of None \<Rightarrow> True | Some stored \<Rightarrow> \<not> depth > stored,
          r\<lparr>colorData := (colorData r)[nat (index * 4) := toUint8 (min (depth * 255 + 50) 255),
                                          nat (index * 4) + 1 := 0, nat (index * 4) + 2 := 0],
            accessed := accessed r @ [index]\<rparr>)"
proof -
  have "\<not> (index * 4 < 0 \<or> index * 4 + 3 > int (length (colorData r)))"
    using assms by linarith
  then show ?thesis
    unfolding probePixel_def Let_def by (simp split: option.splits)
qed

lemma probePixel_step:
  assumes wf: "wellFormed r" and ib: "inBounds r index"
  shows "probeStep r (probePixel index depth r)"
proof -
  have a: "0 \<le> index" using ib by (simp add: inBounds_def)
  have b: "index * 4 + 3 \<le> int (length (colorData r))"
    using wf ib by (simp add: wellFormed_def inBounds_def)
  show ?thesis
    using ib unfolding probePixel_unfold[OF a b] probeStep_Inr
    by (simp add: boundedStep_def sameConfig_def accessesWithin_def newAccesses_def)
qed

lemma probeLoop_unfold:
  "i \<le> rightX \<Longrightarrow>
   probeLoop i rightX index depth depthIncrement r =
     (case probePixel index depth r of
        Inl e \<Rightarrow> Inl e
      | Inr (False, r') \<Rightarrow> Inr (False, r')
      | Inr (True, r') \<Rightarrow>
          probeLoop (i + 1) rightX (index + 1) (depth + depthIncrement) depthIncrement r')"
  by (subst probeLoop.simps) simp

lemma probeLoop_done:
  "\<not> i \<le> rightX \<Longrightarrow> probeLoop i rightX index depth depthIncrement r = Inr (True, r)"
  by (subst probeLoop.simps) simp

lemma probeLoop_step:
  "wellFormed r \<Longrightarrow> (i \<le> rightX \<longrightarrow> inBounds r index \<and> inBounds r (index + (rightX - i))) \<Longrightarrow>
   probeStep r (probeLoop i rightX index depth depthIncrement r)"
proof (induction i rightX index depth depthIncrement r rule: probeLoop.induct)
  case (1 i rightX index depth depthIncrement r)
  show ?case
  proof (cases "i \<le> rightX")
    case False
    then show ?thesis by (simp add: probeLoop_done probeStep_refl)
  next
    case True
    have p: "probeStep r (probePixel index depth r)"
      using "1.prems" True by (simp add: probePixel_step)
    show ?thesis
    proof (cases "probePixel index depth r")
      case (Inl e)
      then show ?thesis using p by (simp add: probeStep_def)
    next
      case (Inr q)
      obtain v r' where q: "(v, r') = q" by (cases q) simp
      show ?thesis
      proof (cases v)
        case False
        have "probeLoop i rightX index depth depthIncrement r = Inr (False, r')"
          unfolding probeLoop_unfold[OF True] Inr q[symmetric] using False by simp
        then show ?thesis using p Inr q False by simp
      next
        case v: True
        then have vt: "v = True" by simp
        have pr: "probeStep r (Inr (True, r'))" using p Inr q vt by simp
        then have s: "boundedStep r r'" by (simp add: probeStep_Inr)
        have wf': "wellFormed r'" by (rule wellFormed_step[OF "1.prems"(1) s])
        have ib: "inBounds r' = inBounds r"
          using s by (intro inBounds_step) (simp_all add: boundedStep_def)
        have bnd: "i + 1 \<le> rightX \<longrightarrow> inBounds r' (index + 1) \<and> inBounds r' (index + 1 + (rightX - (i + 1)))"
          using "1.prems"(2) True unfolding ib by (auto simp: inBounds_def)
        have rest: "probeStep r' (probeLoop (i + 1) rightX (index + 1) (depth + depthIncrement) depthIncrement r')"
          by (rule "1.IH"[OF True Inr q vt wf' bnd])
        have "probeLoop i rightX index depth depthIncrement r =
                probeLoop (i + 1) rightX (index + 1) (depth + depthIncrement) depthIncrement r'"
          unfolding probeLoop_unfold[OF True] Inr q[symmetric] using vt by simp
        then show ?thesis using probeStep_trans[OF pr rest] by simp
      qed
    qed
  qed
qed

lemma isScanlineOccluded_unfold:
  "isScanlineOccluded leftX rightX y leftZ rightZ r =
     (if rightX < 0 \<or> leftX > clipX r \<or> rightX < leftX then Inr (True, r)
      else (case clipSpan r leftX rightX leftZ rightZ of
              (leftX', rightX', leftZ', rightZ') \<Rightarrow>
                probeLoop leftX' rightX' (y * width r + leftX') leftZ'
                  ((rightZ' - leftZ') / real_of_int (rightX' - leftX'))
                  (logDepth ''rightZ : '' rightZ (logDepth ''leftZ : '' leftZ r))))"
  by (simp add: isScanlineOccluded_def Let_def)

lemma isScanlineOccluded_step:
  assumes wf: "wellFormed r" and y: "0 \<le> y" "y \<le> clipY r"
  shows "probeStep r (isScanlineOccluded leftX rightX y leftZ rightZ r)"
proof (cases "rightX < 0 \<or> leftX > clipX r \<or> rightX < leftX")
  case True
  then show ?thesis by (simp add: isScanlineOccluded_unfold probeStep_refl)
next
  case False
  obtain a b c d where sp: "clipSpan r leftX rightX leftZ rightZ = (a, b, c, d)"
    using prod_cases4 by blast
  have ab: "a = max 0 leftX \<and> b = min rightX (clipX r)"
    by (rule clipSpan_bounds[OF False sp])
  let ?r2 = "logDepth ''rightZ : '' rightZ (logDepth ''leftZ : '' leftZ r)"
  have s2: "boundedStep r ?r2" by (rule logged_twice_step)
  have wf2: "wellFormed ?r2" by (rule wellFormed_step[OF wf s2])
  have cfg: "width ?r2 = width r" "clipX ?r2 = clipX r" "clipY ?r2 = clipY r"
    using boundedStep_config[OF s2] by (simp_all add: sameConfig_def)
  have "a \<le> b \<longrightarrow> inBounds ?r2 (y * width r + a) \<and> inBounds ?r2 (y * width r + a + (b - a))"
  proof
    assume "a \<le> b"
    then show "inBounds ?r2 (y * width r + a) \<and> inBounds ?r2 (y * width r + a + (b - a))"
      using span_in_bounds[OF wf2, of y a b] y ab cfg by simp
  qed
  then have st: "probeStep ?r2 (probeLoop a b (y * width r + a) c ((d - c) / real_of_int (b - a)) ?r2)"
    by (rule probeLoop_step[OF wf2])
  have eq: "isScanlineOccluded leftX rightX y leftZ rightZ r =
          probeLoop a b (y * width r + a) c ((d - c) / real_of_int (b - a)) ?r2"
    using False by (simp add: isScanlineOccluded_unfold sp)
  show ?thesis
  proof (cases "probeLoop a b (y * width r + a) c ((d - c) / real_of_int (b - a)) ?r2")
    case (Inl e)
    then show ?thesis using st by (simp add: probeStep_def)
  next
    case (Inr q)
    obtain v r' where q: "q = (v, r')" by (cases q)
    have s: "boundedStep ?r2 r'" and dd: "depthData r' = depthData ?r2"
      and v: "v \<or> newAccesses ?r2 r' \<noteq> []"
      using st Inr q by (simp_all add: probeStep_Inr)
    have n: "newAccesses r r' = newAccesses r ?r2 @ newAccesses ?r2 r'"
      using s2 s by (intro newAccesses_trans) (simp_all add: boundedStep_def)
    have d2: "depthData ?r2 = depthData r" by (simp add: logDepth_def)
    have "v \<or> newAccesses r r' \<noteq> []" using v n by auto
    then have "probeStep r (Inr (v, r'))"
      unfolding probeStep_Inr
      using boundedStep_trans[OF s2 s] dd d2 by simp
    then show ?thesis using eq Inr q by simp
  qed
qed

lemma occludedLoop_unfold:
  "y \<le> stopLine' \<Longrightarrow> occludeeSpan orientationData edgeData = (leftX, rightX, leftZ, rightZ) \<Longrightarrow>
   occludedLoop orientationData y stopLine' edgeData r =
     (case isScanlineOccluded leftX rightX y leftZ rightZ r of
        Inl e \<Rightarrow> Inl e
      | Inr (False, r') \<Rightarrow> Inr (False, r')
      | Inr (True, r') \<Rightarrow>
          occludedLoop orientationData (y + 1) stopLine' (updateEdgeDataToNextLine edgeData) r')"
  by (subst occludedLoop.simps) simp

lemma occludedLoop_done:
  "\<not> y \<le> stopLine' \<Longrightarrow> occludedLoop orientationData y stopLine' edgeData r = Inr (True, r)"
  by (subst occludedLoop.simps) simp

lemma occludedLoop_step:
  "wellFormed r \<Longrightarrow> 0 \<le> y \<Longrightarrow> stopLine' \<le> clipY r \<Longrightarrow>
   probeStep r (occludedLoop orientationData y stopLine' edgeData r)"
proof (induction orientationData y stopLine' edgeData r rule: occludedLoop.induct)
  case (1 orientationData y stopLine' edgeData r)
  show ?case
  proof (cases "y \<le> stopLine'")
    case False
    then show ?thesis by (simp add: occludedLoop_done probeStep_refl)
  next
    case True
    obtain leftX rightX leftZ rightZ where
      sp: "occludeeSpan orientationData edgeData = (leftX, rightX, leftZ, rightZ)"
      using prod_cases4 by blast
    have p: "probeStep r (isScanlineOccluded leftX rightX y leftZ rightZ r)"
      using "1.prems" True by (intro isScanlineOccluded_step) simp_all
    note unf = occludedLoop_unfold[OF True sp, of r]
    show ?thesis
    proof (cases "isScanlineOccluded leftX rightX y leftZ rightZ r")
      case (Inl e)
      then show ?thesis using p by (simp add: probeStep_def)
    next
      case (Inr q)
      obtain v r' where q: "(v, r') = q" by (cases q) simp
      show ?thesis
      proof (cases v)
        case False
        have "occludedLoop orientationData y stopLine' edgeData r = Inr (False, r')"
          unfolding unf Inr q[symmetric] using False by simp
        then show ?thesis using p Inr q False by simp
      next
        case v: True
        then have vt: "v = True" by simp
        have pr: "probeStep r (Inr (True, r'))" using p Inr q vt by simp
        then have s: "boundedStep r r'" by (simp add: probeStep_Inr)
        have wf': "wellFormed r'" by (rule wellFormed_step[OF "1.prems"(1) s])
        have cy: "clipY r' = clipY r" using boundedStep_config[OF s] by (simp add: sameConfig_def)
        have y1: "0 \<le> y + 1" using "1.prems"(2) by simp
        have st: "stopLine' \<le> clipY r'" using "1.prems"(3) cy by simp
        have rest: "probeStep r' (occludedLoop orientationData (y + 1) stopLine'
                                   (updateEdgeDataToNextLine edgeData) r')"
          by (rule "1.IH"[OF True sp[symmetric] refl refl refl Inr q vt wf' y1 st])
        have "occludedLoop orientationData y stopLine' edgeData r =
                occludedLoop orientationData (y + 1) stopLine' (updateEdgeDataToNextLine edgeData) r'"
          unfolding unf Inr q[symmetric] using vt by simp
        then show ?thesis using probeStep_trans[OF pr rest] by simp
      qed
    qed
  qed
qed

lemma isEdgeOccluded_step:
  assumes "wellFormed r" and "edgePreRenderProcess r longEdge shortEdge = Some edgeData"
  shows "probeStep r (isEdgeOccluded edgeData orientationData r)"
  unfolding isEdgeOccluded_def
  using edgePreRenderProcess_lines[OF assms(2)] by (intro occludedLoop_step assms(1)) simp_all

lemma second_probe_step:
  assumes wf: "wellFormed r"
    and p1: "probeStep r (Inr (True, r1))"
  shows "probeStep r (case edgePreRenderProcess r1 longEdge shortEdge' of
                        Some edgeData' \<Rightarrow> isEdgeOccluded edgeData' orientationData r1
                      | None \<Rightarrow> Inr (True, r1))"
proof (cases "edgePreRenderProcess r1 longEdge shortEdge'")
  case None
  then show ?thesis using p1 by simp
next
  case (Some edgeData')
  have s: "boundedStep r r1" using p1 by (simp add: probeStep_Inr)
  have wf1: "wellFormed r1" by (rule wellFormed_step[OF wf s])
  show ?thesis
    using probeStep_trans[OF p1 isEdgeOccluded_step[OF wf1 Some]] Some by simp
qed

lemma first_probe_step:
  assumes wf: "wellFormed r"
    and e: "edgePreRenderProcess r longEdge shortEdge = Some edgeData"
  shows "probeStep r (case isEdgeOccluded edgeData orientationData r of
                        Inl e \<Rightarrow> Inl e
                      | Inr (False, r1) \<Rightarrow> Inr (False, r1)
                      | Inr (True, r1) \<Rightarrow>
                          (case edgePreRenderProcess r1 longEdge shortEdge' of
                             Some edgeData' \<Rightarrow> isEdgeOccluded edgeData' orientationData r1
                           | None \<Rightarrow> Inr (True, r1)))"
proof -
  have p: "probeStep r (isEdgeOccluded edgeData orientationData r)"
    by (rule isEdgeOccluded_step[OF wf e])
  show ?thesis
  proof (cases "isEdgeOccluded edgeData orientationData r")
    case (Inl e)
    then show ?thesis using p by (simp add: probeStep_def)
  next
    case (Inr q)
    obtain v r1 where q: "q = (v, r1)" by (cases q)
    show ?thesis
    proof (cases v)
      case False
      then show ?thesis using p Inr q by simp
    next
      case True
      then have "probeStep r (Inr (True, r1))" using p Inr q by simp
      from second_probe_step[OF wf this] show ?thesis using Inr q True by simp
    qed
  qed
qed

lemma isRenderedTriangleOccluded_step:
  assumes "wellFormed r"
  shows "probeStep r (isRenderedTriangleOccluded r triangle)"
  using assms
  by (auto simp: isRenderedTriangleOccluded_def Let_def probeStep_refl isEdgeOccluded_step
      first_probe_step split: prod.splits option.splits)

lemma constructed_wellFormed:
  assumes "newSoftwareRenderer rt w h cam = Inr r"
  shows "wellFormed r"
proof -
  from newSoftwareRenderer_Inr[OF assms]
  have p: "0 \<le> w * h" and r: "r = blankRenderer w h cam" by simp_all
  have "nat (w * h * 4) = 4 * nat (w * h)" using p by simp
  then show ?thesis by (simp add: r wellFormed_def blankRenderer_def)
qed

lemma renderTriangles_step:
  "wellFormed r \<Longrightarrow> boundedStep r (foldl renderTriangle r triangles)"
proof (induction triangles arbitrary: r)
  case Nil
  show ?case by (simp add: boundedStep_refl)
next
  case (Cons t ts)
  have s: "boundedStep r (renderTriangle r t)" by (rule renderTriangle_step[OF Cons.prems])
  have "boundedStep (renderTriangle r t) (foldl renderTriangle (renderTriangle r t) ts)"
    by (rule Cons.IH[OF wellFormed_step[OF Cons.prems s]])
  then show ?case using boundedStep_trans[OF s] by simp
qed

lemma renderLoop_step:
  "wellFormed r \<Longrightarrow> boundedStep r (fst (renderLoop r v p entities))"
proof (induction entities arbitrary: r)
  case Nil
  show ?case by (simp add: boundedStep_refl)
next
  case (Cons e es)
  show ?case
  proof (cases "createTrianglesForEntity r e v p")
    case (Inl err)
    then show ?thesis by (simp add: boundedStep_refl)
  next
    case (Inr ts)
    have s: "boundedStep r (foldl renderTriangle r ts)" by (rule renderTriangles_step[OF Cons.prems])
    have "boundedStep (foldl renderTriangle r ts) (fst (renderLoop (foldl renderTriangle r ts) v p es))"
      by (rule Cons.IH[OF wellFormed_step[OF Cons.prems s]])
    then show ?thesis using boundedStep_trans[OF s] Inr by simp
  qed
qed

lemma clearDepthData_step: "wellFormed r \<Longrightarrow> boundedStep r (clearDepthData r)"
  by (simp add: wellFormed_def boundedStep_def clearDepthData_def sameConfig_def
      accessesWithin_def newAccesses_def)

lemma render_step:
  assumes wf: "wellFormed r"
  shows "boundedStep r (fst (render r renderList))"
proof (cases "camera r")
  case None
  then show ?thesis using clearDepthData_step[OF wf] by (simp add: render_def clearDepthData_def)
next
  case (Some cam)
  have c: "camera (clearDepthData r) = Some cam" using Some by (simp add: clearDepthData_def)
  have s: "boundedStep r (clearDepthData r)" by (rule clearDepthData_step[OF wf])
  have "boundedStep (clearDepthData r)
          (fst (renderLoop (clearDepthData r) (viewMatrix cam) (projectionMatrix cam) renderList))"
    by (rule renderLoop_step[OF wellFormed_step[OF wf s]])
  then have "boundedStep r
          (fst (renderLoop (clearDepthData r) (viewMatrix cam) (projectionMatrix cam) renderList))"
    by (rule boundedStep_trans[OF s])
  then show ?thesis using c by (simp add: render_def Let_def)
qed

lemma render_wellFormed: "wellFormed r \<Longrightarrow> wellFormed (fst (render r renderList))"
  using render_step wellFormed_step by blast

lemma wf_example: "wellFormed exampleRenderer"
  by (simp add: wellFormed_def exampleRenderer_def)

lemma occludedLoop_first:
  "y \<le> stopLine' \<Longrightarrow>
   occludedLoop orientationData y stopLine' edgeData r =
     (case occludeeSpan orientationData edgeData of
        (leftX, rightX, leftZ, rightZ) \<Rightarrow>
          (case isScanlineOccluded leftX rightX y leftZ rightZ r of
             Inl e \<Rightarrow> Inl e
           | Inr (False, r') \<Rightarrow> Inr (False, r')
           | Inr (True, r') \<Rightarrow>
               occludedLoop orientationData (y + 1) stopLine' (updateEdgeDataToNextLine edgeData) r'))"
  by (subst occludedLoop.simps) simp

lemma scan_example:
  "isScanlineOccluded (- 1) 5 1 (1 / 2) (1 / 4) exampleRenderer
     = Inr (False, exampleRenderer\<lparr>colorData := (colorData exampleRenderer)[16 := 168, 17 := 0, 18 := 0],
                                    accessed := [4]\<rparr>)"
  by (simp add: isScanlineOccluded_def exampleRenderer_def logDepth_def clipSpan_def Let_def
      probeLoop_unfold probePixel_def readDepth_def toUint8_def)


lemma edges_example:
  "createEdgesForTriangle exampleTriangle =
     ([\<lparr>x0 = 0, y0 = 0, z0 = 2, x1 = 3, y1 = 0, z1 = 2\<rparr>,
       \<lparr>x0 = 3, y0 = 0, z0 = 2, x1 = 3, y1 = 1, z1 = 2\<rparr>,
       \<lparr>x0 = 0, y0 = 0, z0 = 2, x1 = 3, y1 = 1, z1 = 2\<rparr>], [1, 2, 0])"
proof -
  have u: "[0 ..< 3] = [0, 1, 2 :: nat]" by (simp add: upt_conv_Cons numeral_3_eq_3)
  show ?thesis
    unfolding createEdgesForTriangle_def u
    by (simp add: exampleTriangle_def newEdge_def Let_def)
qed

lemma triangle_example:
  "isRenderedTriangleOccluded exampleRenderer exampleTriangle
     = Inr (False, exampleRenderer\<lparr>colorData := (colorData exampleRenderer)[0 := 177, 1 := 0, 2 := 0],
                                    accessed := [0]\<rparr>)"
  unfolding isRenderedTriangleOccluded_def edges_example
  by (simp add: exampleRenderer_def verticalLongEdgeCull_def roundOccludeeCoordinates_def invertZ_def
      edgePreRenderProcess_def calculateOrientationData_def horizontalLongEdgeCull_def
      isEdgeOccluded_def occludedLoop_first occludeeSpan_def
      isScanlineOccluded_def logDepth_def clipSpan_def Let_def
      probeLoop_unfold probePixel_def readDepth_def toUint8_def numeral_2_eq_2)

text \<open>
  C8: on a renderer whose clipping bounds and buffers belong to its size, every
  depth-buffer access of \<open>_fillPixels\<close> and of \<open>_isScanlineOccluded\<close> on a scanline
  \<open>y\<close> in \<open>[0, clipY]\<close> is at an index \<open>0 \<le> index < width * height\<close> inside the
  buffer, and \<open>_isScanlineOccluded\<close> raises nothing; \<open>_edgePreRenderProcess\<close> returns
  \<open>startLine \<ge> 0\<close> and \<open>stopLine \<le> clipY\<close>, so every scanline that \<open>_drawEdges\<close>,
  \<open>_isEdgeOccluded\<close>, \<open>_renderTriangle\<close> and \<open>isRenderedTriangleOccluded\<close> process
  lies in \<open>[0, clipY]\<close> and all their accesses are in bounds.  The same holds for
  a whole frame: every access of \<open>render\<close> is in bounds and the renderer it leaves
  behind is again of this kind (a renderer returned by the constructor is, by
  \<open>constructed_wellFormed\<close>).
\<close>

theorem depth_accesses_in_bounds:
  assumes wf: "wellFormed r"
  shows "(0 \<le> y \<and> y \<le> clipY r \<longrightarrow> accessesWithin r (fillPixels leftX rightX y leftZ rightZ r))
       \<and> (0 \<le> y \<and> y \<le> clipY r \<longrightarrow>
            (\<exists>occluded r'. isScanlineOccluded leftX rightX y leftZ rightZ r = Inr (occluded, r')
                           \<and> accessesWithin r r'))
       \<and> (\<forall>edgeData. edgePreRenderProcess r longEdge shortEdge = Some edgeData \<longrightarrow>
              0 \<le> startLine edgeData \<and> stopLine edgeData \<le> clipY r
            \<and> accessesWithin r (drawEdges edgeData orientationData r)
            \<and> (\<exists>occluded r'. isEdgeOccluded edgeData orientationData r = Inr (occluded, r')
                             \<and> accessesWithin r r'))
       \<and> accessesWithin r (renderTriangle r triangle)
       \<and> (\<exists>occluded r'. isRenderedTriangleOccluded r triangle = Inr (occluded, r')
                         \<and> accessesWithin r r')
       \<and> accessesWithin r (fst (render r renderList))
       \<and> wellFormed (fst (render r renderList))"
proof -
  have probe: "\<exists>occluded r'. outcome = Inr (occluded, r') \<and> accessesWithin r r'"
    if "probeStep r outcome" for outcome
  proof (cases outcome)
    case (Inl e)
    then show ?thesis using that by (simp add: probeStep_def)
  next
    case (Inr q)
    obtain v r' where "q = (v, r')" by (cases q)
    then show ?thesis using that Inr by (simp add: probeStep_Inr boundedStep_def)
  qed
  have a: "0 \<le> y \<and> y \<le> clipY r \<longrightarrow> accessesWithin r (fillPixels leftX rightX y leftZ rightZ r)"
    using fillPixels_step[OF wf, of y leftX rightX leftZ rightZ] by (simp add: boundedStep_def)
  have b: "0 \<le> y \<and> y \<le> clipY r \<longrightarrow>
            (\<exists>occluded r'. isScanlineOccluded leftX rightX y leftZ rightZ r = Inr (occluded, r')
                           \<and> accessesWithin r r')"
    using probe[OF isScanlineOccluded_step[OF wf, of y leftX rightX leftZ rightZ]] by blast
  have c: "\<forall>edgeData. edgePreRenderProcess r longEdge shortEdge = Some edgeData \<longrightarrow>
              0 \<le> startLine edgeData \<and> stopLine edgeData \<le> clipY r
            \<and> accessesWithin r (drawEdges edgeData orientationData r)
            \<and> (\<exists>occluded r'. isEdgeOccluded edgeData orientationData r = Inr (occluded, r')
                             \<and> accessesWithin r r')"
  proof (intro allI impI)
    fix edgeData assume e: "edgePreRenderProcess r longEdge shortEdge = Some edgeData"
    have "accessesWithin r (drawEdges edgeData orientationData r)"
      using drawEdges_step[OF wf e, of orientationData] by (simp add: boundedStep_def)
    then show "0 \<le> startLine edgeData \<and> stopLine edgeData \<le> clipY r
            \<and> accessesWithin r (drawEdges edgeData orientationData r)
            \<and> (\<exists>occluded r'. isEdgeOccluded edgeData orientationData r = Inr (occluded, r')
                             \<and> accessesWithin r r')"
      using edgePreRenderProcess_lines[OF e] probe[OF isEdgeOccluded_step[OF wf e, of orientationData]]
      by blast
  qed
  have d: "accessesWithin r (renderTriangle r triangle)"
    using renderTriangle_step[OF wf, of triangle] by (simp add: boundedStep_def)
  have e: "\<exists>occluded r'. isRenderedTriangleOccluded r triangle = Inr (occluded, r')
                         \<and> accessesWithin r r'"
    by (rule probe[OF isRenderedTriangleOccluded_step[OF wf]])
  have f: "accessesWithin r (fst (render r renderList))"
    using render_step[OF wf, of renderList] by (simp add: boundedStep_def)
  have g: "wellFormed (fst (render r renderList))"
    by (rule render_wellFormed[OF wf])
  show ?thesis using a b c d e f g by blast
qed

theorem depth_accesses_in_bounds_witness:
  "wellFormed exampleRenderer \<and> (0 :: int) \<le> 1 \<and> 1 \<le> clipY exampleRenderer
   \<and> accessesWithin exampleRenderer (fillPixels (- 1) 5 1 (1 / 2) (1 / 4) exampleRenderer)
   \<and> isScanlineOccluded (- 1) 5 1 (1 / 2) (1 / 4) exampleRenderer
        = Inr (False, exampleRenderer\<lparr>colorData := (colorData exampleRenderer)[16 := 168, 17 := 0, 18 := 0],
                                       accessed := [4]\<rparr>)
   \<and> accessesWithin exampleRenderer
        (exampleRenderer\<lparr>colorData := (colorData exampleRenderer)[16 := 168, 17 := 0, 18 := 0],
                          accessed := [4]\<rparr>)
   \<and> edgePreRenderProcess exampleRenderer
        \<lparr>x0 = 0, y0 = - 1, z0 = 1 / 2, x1 = 3, y1 = 5, z1 = 1 / 2\<rparr>
        \<lparr>x0 = 0, y0 = - 1, z0 = 1 / 2, x1 = 3, y1 = 2, z1 = 1 / 4\<rparr>
        = Some \<lparr>startLine = 0, stopLine = 1, longX = 1 / 2, shortX = 1, longZ = 1 / 2,
                 shortZ = 5 / 12, longXIncrement = 1 / 2, shortXIncrement = 1,
                 longZIncrement = 0, shortZIncrement = - (1 / 12)\<rparr>
   \<and> accessesWithin exampleRenderer
        (drawEdges \<lparr>startLine = 0, stopLine = 1, longX = 1 / 2, shortX = 1, longZ = 1 / 2,
                     shortZ = 5 / 12, longXIncrement = 1 / 2, shortXIncrement = 1,
                     longZIncrement = 0, shortZIncrement = - (1 / 12)\<rparr> (False, True) exampleRenderer)
   \<and> accessesWithin exampleRenderer (renderTriangle exampleRenderer exampleTriangle)
   \<and> isRenderedTriangleOccluded exampleRenderer exampleTriangle
        = Inr (False, exampleRenderer\<lparr>colorData := (colorData exampleRenderer)[0 := 177, 1 := 0, 2 := 0],
                                       accessed := [0]\<rparr>)
   \<and> accessesWithin exampleRenderer
        (exampleRenderer\<lparr>colorData := (colorData exampleRenderer)[0 := 177, 1 := 0, 2 := 0],
                          accessed := [0]\<rparr>)
   \<and> accessesWithin exampleRenderer (fst (render exampleRenderer [exampleOccluder]))"
proof -
  have y: "(0 :: int) \<le> 1 \<and> 1 \<le> clipY exampleRenderer" by (simp add: exampleRenderer_def)
  have e: "edgePreRenderProcess exampleRenderer
        \<lparr>x0 = 0, y0 = - 1, z0 = 1 / 2, x1 = 3, y1 = 5, z1 = 1 / 2\<rparr>
        \<lparr>x0 = 0, y0 = - 1, z0 = 1 / 2, x1 = 3, y1 = 2, z1 = 1 / 4\<rparr>
        = Some \<lparr>startLine = 0, stopLine = 1, longX = 1 / 2, shortX = 1, longZ = 1 / 2,
                 shortZ = 5 / 12, longXIncrement = 1 / 2, shortXIncrement = 1,
                 longZIncrement = 0, shortZIncrement = - (1 / 12)\<rparr>"
    by (simp add: edgePreRenderProcess_def exampleRenderer_def Let_def)
  note t = depth_accesses_in_bounds[OF wf_example, where y = 1 and leftX = "- 1" and rightX = 5
      and leftZ = "1 / 2" and rightZ = "1 / 4"
      and longEdge = "\<lparr>x0 = 0, y0 = - 1, z0 = 1 / 2, x1 = 3, y1 = 5, z1 = 1 / 2\<rparr>"
      and shortEdge = "\<lparr>x0 = 0, y0 = - 1, z0 = 1 / 2, x1 = 3, y1 = 2, z1 = 1 / 4\<rparr>"
      and orientationData = "(False, True)" and triangle = exampleTriangle
      and renderList = "[exampleOccluder]"]
  have a: "accessesWithin exampleRenderer (fillPixels (- 1) 5 1 (1 / 2) (1 / 4) exampleRenderer)"
    using t y by blast
  have b: "accessesWithin exampleRenderer
        (exampleRenderer\<lparr>colorData := (colorData exampleRenderer)[16 := 168, 17 := 0, 18 := 0],
                          accessed := [4]\<rparr>)"
    using t y scan_example by auto
  have c: "accessesWithin exampleRenderer
        (drawEdges \<lparr>startLine = 0, stopLine = 1, longX = 1 / 2, shortX = 1, longZ = 1 / 2,
                     shortZ = 5 / 12, longXIncrement = 1 / 2, shortXIncrement = 1,
                     longZIncrement = 0, shortZIncrement = - (1 / 12)\<rparr> (False, True) exampleRenderer)"
    using t e by blast
  have d: "accessesWithin exampleRenderer (renderTriangle exampleRenderer exampleTriangle)"
    using t by blast
  have f: "accessesWithin exampleRenderer
        (exampleRenderer\<lparr>colorData := (colorData exampleRenderer)[0 := 177, 1 := 0, 2 := 0],
                          accessed := [0]\<rparr>)"
    using t triangle_example by auto
  have h: "accessesWithin exampleRenderer (fst (render exampleRenderer [exampleOccluder]))"
    using t by blast
  show ?thesis using wf_example y a b c d e f h scan_example triangle_example by blast
qed

text \<open>
  C9: a span with \<open>rightX < 0\<close>, \<open>leftX > clipX\<close> or \<open>rightX < leftX\<close> is reported
  occluded by \<open>_isScanlineOccluded\<close> with the renderer untouched (no depth cell is read);
  and whenever a scanline probe or \<open>isRenderedTriangleOccluded\<close> reports "not occluded",
  it has read at least one depth cell and every cell it read lies inside the viewport:
  what lies outside the viewport never yields the verdict "visible".
\<close>

theorem outside_spans_are_occluded:
  "(rightX < 0 \<or> leftX > clipX r \<or> rightX < leftX \<longrightarrow>
      isScanlineOccluded leftX rightX y leftZ rightZ r = Inr (True, r))
   \<and> (wellFormed r \<and> 0 \<le> y \<and> y \<le> clipY r
        \<and> isScanlineOccluded leftX rightX y leftZ rightZ r = Inr (False, r') \<longrightarrow>
          newAccesses r r' \<noteq> [] \<and> list_all (inBounds r) (newAccesses r r'))
   \<and> (wellFormed r \<and> isRenderedTriangleOccluded r triangle = Inr (False, r'') \<longrightarrow>
          newAccesses r r'' \<noteq> [] \<and> list_all (inBounds r) (newAccesses r r'')
        \<and> depthData r'' = depthData r)"
proof -
  have a: "rightX < 0 \<or> leftX > clipX r \<or> rightX < leftX \<longrightarrow>
      isScanlineOccluded leftX rightX y leftZ rightZ r = Inr (True, r)"
    by (simp add: isScanlineOccluded_def)
  have b: "wellFormed r \<and> 0 \<le> y \<and> y \<le> clipY r
        \<and> isScanlineOccluded leftX rightX y leftZ rightZ r = Inr (False, r') \<longrightarrow>
          newAccesses r r' \<noteq> [] \<and> list_all (inBounds r) (newAccesses r r')"
  proof
    assume h: "wellFormed r \<and> 0 \<le> y \<and> y \<le> clipY r
        \<and> isScanlineOccluded leftX rightX y leftZ rightZ r = Inr (False, r')"
    then have "probeStep r (Inr (False, r'))"
      using isScanlineOccluded_step[of r y leftX rightX leftZ rightZ] by simp
    then show "newAccesses r r' \<noteq> [] \<and> list_all (inBounds r) (newAccesses r r')"
      by (simp add: probeStep_Inr boundedStep_def accessesWithin_def)
  qed
  have c: "wellFormed r \<and> isRenderedTriangleOccluded r triangle = Inr (False, r'') \<longrightarrow>
          newAccesses r r'' \<noteq> [] \<and> list_all (inBounds r) (newAccesses r r'')
        \<and> depthData r'' = depthData r"
  proof
    assume h: "wellFormed r \<and> isRenderedTriangleOccluded r triangle = Inr (False, r'')"
    then have "probeStep r (Inr (False, r''))"
      using isRenderedTriangleOccluded_step[of r triangle] by simp
    then show "newAccesses r r'' \<noteq> [] \<and> list_all (inBounds r) (newAccesses r r'')
        \<and> depthData r'' = depthData r"
      by (simp add: probeStep_Inr boundedStep_def accessesWithin_def)
  qed
  show ?thesis using a b c by blast
qed

theorem outside_spans_are_occluded_witness:
  "7 > clipX exampleRenderer
   \<and> isScanlineOccluded 7 9 1 (1 / 2) (1 / 2) exampleRenderer = Inr (True, exampleRenderer)
   \<and> wellFormed exampleRenderer \<and> (0 :: int) \<le> 1 \<and> 1 \<le> clipY exampleRenderer
   \<and> isScanlineOccluded (- 1) 5 1 (1 / 2) (1 / 4) exampleRenderer
        = Inr (False, exampleRenderer\<lparr>colorData := (colorData exampleRenderer)[16 := 168, 17 := 0, 18 := 0],
                                       accessed := [4]\<rparr>)
   \<and> newAccesses exampleRenderer
        (exampleRenderer\<lparr>colorData := (colorData exampleRenderer)[16 := 168, 17 := 0, 18 := 0],
                          accessed := [4]\<rparr>) \<noteq> []
   \<and> list_all (inBounds exampleRenderer)
        (newAccesses exampleRenderer
          (exampleRenderer\<lparr>colorData := (colorData exampleRenderer)[16 := 168, 17 := 0, 18 := 0],
                            accessed := [4]\<rparr>))
   \<and> isRenderedTriangleOccluded exampleRenderer exampleTriangle
        = Inr (False, exampleRenderer\<lparr>colorData := (colorData exampleRenderer)[0 := 177, 1 := 0, 2 := 0],
                                       accessed := [0]\<rparr>)
   \<and> newAccesses exampleRenderer
        (exampleRenderer\<lparr>colorData := (colorData exampleRenderer)[0 := 177, 1 := 0, 2 := 0],
                          accessed := [0]\<rparr>) \<noteq> []
   \<and> list_all (inBounds exampleRenderer)
        (newAccesses exampleRenderer
          (exampleRenderer\<lparr>colorData := (colorData exampleRenderer)[0 := 177, 1 := 0, 2 := 0],
                            accessed := [0]\<rparr>))"
proof -
  have g: "7 > clipX exampleRenderer" by (simp add: exampleRenderer_def)
  have y: "(0 :: int) \<le> 1 \<and> 1 \<le> clipY exampleRenderer" by (simp add: exampleRenderer_def)
  note t = outside_spans_are_occluded[where r = exampleRenderer and triangle = exampleTriangle and y = 1]
  have a: "isScanlineOccluded 7 9 1 (1 / 2) (1 / 2) exampleRenderer = Inr (True, exampleRenderer)"
    using t[where leftX = 7 and rightX = 9 and leftZ = "1 / 2" and rightZ = "1 / 2"] g by blast
  note u = t[where leftX = "- 1" and rightX = 5 and leftZ = "1 / 2" and rightZ = "1 / 4"
      and r' = "exampleRenderer\<lparr>colorData := (colorData exampleRenderer)[16 := 168, 17 := 0, 18 := 0],
                                 accessed := [4]\<rparr>"
      and r'' = "exampleRenderer\<lparr>colorData := (colorData exampleRenderer)[0 := 177, 1 := 0, 2 := 0],
                                  accessed := [0]\<rparr>"]
  have b: "newAccesses exampleRenderer
        (exampleRenderer\<lparr>colorData := (colorData exampleRenderer)[16 := 168, 17 := 0, 18 := 0],
                          accessed := [4]\<rparr>) \<noteq> []
     \<and> list_all (inBounds exampleRenderer)
        (newAccesses exampleRenderer
          (exampleRenderer\<lparr>colorData := (colorData exampleRenderer)[16 := 168, 17 := 0, 18 := 0],
                            accessed := [4]\<rparr>))"
    using u wf_example y scan_example by blast
  have c: "newAccesses exampleRenderer
        (exampleRenderer\<lparr>colorData := (colorData exampleRenderer)[0 := 177, 1 := 0, 2 := 0],
                          accessed := [0]\<rparr>) \<noteq> []
     \<and> list_all (inBounds exampleRenderer)
        (newAccesses exampleRenderer
          (exampleRenderer\<lparr>colorData := (colorData exampleRenderer)[0 := 177, 1 := 0, 2 := 0],
                            accessed := [0]\<rparr>))"
    using u wf_example triangle_example by blast
  show ?thesis using g a wf_example y scan_example b c triangle_example by blast
qed

section \<open>Depth values outside the tolerated range (C3)\<close>
















end
